theory Spec2Isabelle
  imports Main "HOL-Library.Log_Nat"
begin

section \<open>Host values: errors, floats and numbers\<close>

text \<open>
  The program is Python; the interpreter whose library behaviour is modelled is
  CPython 3.11 on Linux. A Python \<open>str\<close> is a \<open>string\<close>; a \<open>char\<close> stands for
  the code point of the same number, so the model covers the strings whose code points are
  below 256. Exceptions are values of type \<open>error\<close>, and a function that can raise returns
  \<open>error + 'a\<close> with \<open>Inl\<close> the exception.
\<close>

datatype error = ValueError | OverflowError | ZeroDivisionError

definition attempt :: "error + 'a \<Rightarrow> ('a \<Rightarrow> error + 'b) \<Rightarrow> error + 'b" where
  "attempt r f = (case r of Inl e \<Rightarrow> Inl e | Inr v \<Rightarrow> f v)"

fun traverse :: "('a \<Rightarrow> error + 'b) \<Rightarrow> 'a list \<Rightarrow> error + 'b list" where
  "traverse f [] = Inr []"
| "traverse f (x # xs) = attempt (f x) (\<lambda>y. attempt (traverse f xs) (\<lambda>ys. Inr (y # ys)))"

subsection \<open>IEEE 754 binary64\<close>

text \<open>
  A float is a finite double given by its exact rational value, negative zero, an infinity
  or a NaN. \<open>Fin 0\<close> is positive zero.
\<close>

datatype pyfloat = Fin rat | NZero | PInf | NInf | NaN

text \<open>Rounding a rational to the nearest integer, ties to the even one.\<close>

definition rhe :: "rat \<Rightarrow> int" where
  "rhe x = (let f = \<lfloor>x\<rfloor>; r = x - of_int f
            in if r < 1/2 then f else if 1/2 < r then f + 1
               else if even f then f else f + 1)"

text \<open>\<open>ilog2 a\<close> is the integer \<open>k\<close> with \<open>2^k \<le> a < 2^(k+1)\<close>, for a positive \<open>a\<close>.\<close>

definition ilog2 :: "rat \<Rightarrow> int" where
  "ilog2 a = (let (p, q) = quotient_of a; d = bitlen p - bitlen q
              in if 2 powi d \<le> a then d else d - 1)"

text \<open>
  \<open>rnd x\<close> is the double nearest to \<open>x\<close>, ties to even: a 53-bit significand \<open>m\<close> at the
  exponent \<open>e\<close>, which is at least \<open>-1074\<close> (subnormal numbers). The rounded value
  \<open>m * 2^e\<close> reaches \<open>2^1024\<close>, and the result is an infinity, when \<open>e\<close> is at least 972 or
  \<open>e\<close> is 971 and \<open>m\<close> was rounded up to \<open>2^53\<close>. A non-zero \<open>x\<close> that rounds to zero keeps
  its sign.
\<close>

definition rnd :: "rat \<Rightarrow> pyfloat" where
  "rnd x = (if x = 0 then Fin 0 else
     let a = \<bar>x\<bar>;
         e = max (ilog2 a - 52) (- 1074);
         m = rhe (a / 2 powi e);
         r = of_int m * 2 powi e
     in if 972 \<le> e \<or> (e = 971 \<and> 2 ^ 53 \<le> m) then (if 0 < x then PInf else NInf)
        else if m = 0 then (if 0 < x then Fin 0 else NZero)
        else Fin (if 0 < x then r else - r))"

fun is_finite :: "pyfloat \<Rightarrow> bool" where
  "is_finite (Fin q) = True"
| "is_finite NZero = True"
| "is_finite x = False"

fun fval :: "pyfloat \<Rightarrow> rat" where
  "fval (Fin q) = q"
| "fval x = 0"

text \<open>The sign bit.\<close>

fun fneg_sign :: "pyfloat \<Rightarrow> bool" where
  "fneg_sign (Fin q) = (q < 0)"
| "fneg_sign NZero = True"
| "fneg_sign NInf = True"
| "fneg_sign x = False"

definition signed_zero :: "bool \<Rightarrow> pyfloat" where
  "signed_zero neg = (if neg then NZero else Fin 0)"

definition signed_inf :: "bool \<Rightarrow> pyfloat" where
  "signed_inf neg = (if neg then NInf else PInf)"

fun fneg :: "pyfloat \<Rightarrow> pyfloat" where
  "fneg (Fin q) = (if q = 0 then NZero else Fin (- q))"
| "fneg NZero = Fin 0"
| "fneg PInf = NInf"
| "fneg NInf = PInf"
| "fneg NaN = NaN"

text \<open>
  Addition: a NaN or the sum of opposite infinities is a NaN; an exact zero sum is negative
  only when both operands are negative zeros.
\<close>

fun fadd :: "pyfloat \<Rightarrow> pyfloat \<Rightarrow> pyfloat" where
  "fadd NaN y = NaN"
| "fadd x NaN = NaN"
| "fadd PInf NInf = NaN"
| "fadd NInf PInf = NaN"
| "fadd PInf y = PInf"
| "fadd x PInf = PInf"
| "fadd NInf y = NInf"
| "fadd x NInf = NInf"
| "fadd x y = (let s = fval x + fval y
               in if s = 0 then signed_zero (x = NZero \<and> y = NZero) else rnd s)"

definition fsub :: "pyfloat \<Rightarrow> pyfloat \<Rightarrow> pyfloat" where
  "fsub x y = fadd x (fneg y)"

definition fmul :: "pyfloat \<Rightarrow> pyfloat \<Rightarrow> pyfloat" where
  "fmul x y =
     (if x = NaN \<or> y = NaN then NaN
      else if is_finite x \<and> is_finite y then
        (let p = fval x * fval y
         in if p = 0 then signed_zero (fneg_sign x \<noteq> fneg_sign y) else rnd p)
      else if (is_finite x \<and> fval x = 0) \<or> (is_finite y \<and> fval y = 0) then NaN
      else signed_inf (fneg_sign x \<noteq> fneg_sign y))"

text \<open>True division of floats: Python raises \<open>ZeroDivisionError\<close> on a zero divisor.\<close>

definition fdiv :: "pyfloat \<Rightarrow> pyfloat \<Rightarrow> error + pyfloat" where
  "fdiv x y =
     (if is_finite y \<and> fval y = 0 then Inl ZeroDivisionError
      else if x = NaN \<or> y = NaN then Inr NaN
      else if is_finite x \<and> is_finite y then
        (let q = fval x / fval y
         in Inr (if q = 0 then signed_zero (fneg_sign x \<noteq> fneg_sign y) else rnd q))
      else if is_finite x then Inr (signed_zero (fneg_sign x \<noteq> fneg_sign y))
      else if is_finite y then Inr (signed_inf (fneg_sign x \<noteq> fneg_sign y))
      else Inr NaN)"

text \<open>Comparison: every comparison with a NaN is false, and the two zeros are equal.\<close>

fun py_lt :: "pyfloat \<Rightarrow> pyfloat \<Rightarrow> bool" where
  "py_lt NaN y = False"
| "py_lt x NaN = False"
| "py_lt PInf y = False"
| "py_lt x PInf = True"
| "py_lt x NInf = False"
| "py_lt NInf y = True"
| "py_lt x y = (fval x < fval y)"

definition py_gt :: "pyfloat \<Rightarrow> pyfloat \<Rightarrow> bool" where
  "py_gt x y = py_lt y x"

fun py_eq :: "pyfloat \<Rightarrow> pyfloat \<Rightarrow> bool" where
  "py_eq NaN y = False"
| "py_eq x NaN = False"
| "py_eq PInf y = (y = PInf)"
| "py_eq x PInf = False"
| "py_eq NInf y = (y = NInf)"
| "py_eq x NInf = False"
| "py_eq x y = (fval x = fval y)"

text \<open>
  \<open>round(x, 1)\<close>: the exact value of \<open>x\<close> is rounded to one decimal, ties to even, and
  the decimal is rounded to the nearest double; infinities and NaN round to themselves and
  the sign is kept.
\<close>

fun round1 :: "pyfloat \<Rightarrow> pyfloat" where
  "round1 (Fin q) = (let d = rhe (10 * q)
                     in if d = 0 then signed_zero (q < 0) else rnd (of_int d / 10))"
| "round1 x = x"

subsection \<open>Numbers and \<open>float()\<close>\<close>

text \<open>
  The values the functions receive where they call \<open>float\<close>: an \<open>int\<close>, a \<open>float\<close> or a
  \<open>str\<close>.
\<close>

datatype pyval = PInt int | PFloat pyfloat | PStr string

text \<open>
  \<open>float(s)\<close> for a string: white space is stripped at both ends, then comes an optional
  sign and either \<open>inf\<close>, \<open>infinity\<close> or \<open>nan\<close> in any case, or a decimal number with an
  optional exponent, where single underscores may separate digits. The value is the
  double nearest to the decimal.
\<close>

definition is_space :: "char \<Rightarrow> bool" where
  "is_space c = (c \<in> set [CHR 0x09, CHR 0x0A, CHR 0x0B, CHR 0x0C, CHR 0x0D, CHR 0x20,
                           CHR 0x85, CHR 0xA0])"

definition strip :: "string \<Rightarrow> string" where
  "strip s = rev (dropWhile is_space (rev (dropWhile is_space s)))"

definition is_digit :: "char \<Rightarrow> bool" where
  "is_digit c = (48 \<le> (of_char c :: nat) \<and> (of_char c :: nat) \<le> 57)"

definition digit_val :: "char \<Rightarrow> nat" where
  "digit_val c = of_char c - 48"

definition lower :: "char \<Rightarrow> char" where
  "lower c = (if 65 \<le> (of_char c :: nat) \<and> (of_char c :: nat) \<le> 90
              then char_of (of_char c + (32::nat)) else c)"

text \<open>The digits read so far, most significant first, as a number.\<close>

definition digits_val :: "nat list \<Rightarrow> nat" where
  "digits_val ds = foldl (\<lambda>n d. 10 * n + d) 0 ds"

text \<open>
  \<open>more_digits\<close> reads the rest of a digit part: digits, each optionally preceded by one
  underscore. It returns the digits and what follows them.
\<close>

fun more_digits :: "string \<Rightarrow> nat list \<times> string" where
  "more_digits (c # d # s) =
     (if is_digit c then (let (ds, r) = more_digits (d # s) in (digit_val c # ds, r))
      else if c = CHR ''_'' \<and> is_digit d then
        (let (ds, r) = more_digits s in (digit_val d # ds, r))
      else ([], c # d # s))"
| "more_digits [c] = (if is_digit c then ([digit_val c], []) else ([], [c]))"
| "more_digits [] = ([], [])"

definition digitpart :: "string \<Rightarrow> (nat list \<times> string) option" where
  "digitpart s = (case s of [] \<Rightarrow> None
     | c # r \<Rightarrow> if is_digit c then (let (ds, r') = more_digits r in Some (digit_val c # ds, r'))
                else None)"

text \<open>The exponent, if there is one; what is left must be empty.\<close>

definition exponent :: "string \<Rightarrow> int option" where
  "exponent s = (case s of [] \<Rightarrow> Some 0
     | c # r \<Rightarrow>
        if lower c = CHR ''e'' then
          (let (neg, r1) = (case r of [] \<Rightarrow> (False, r)
                 | g # r' \<Rightarrow> if g = CHR ''-'' then (True, r')
                            else if g = CHR ''+'' then (False, r') else (False, r))
           in case digitpart r1 of
                Some (ds, []) \<Rightarrow> Some (if neg then - int (digits_val ds) else int (digits_val ds))
              | _ \<Rightarrow> None)
        else None)"

text \<open>The exact value of an unsigned decimal number with its exponent.\<close>

definition floatnumber :: "string \<Rightarrow> rat option" where
  "floatnumber s =
     (case s of
        [] \<Rightarrow> None
      | c # r \<Rightarrow>
         if c = CHR ''.'' then
           (case digitpart r of None \<Rightarrow> None
            | Some (fs, r1) \<Rightarrow>
               (case exponent r1 of None \<Rightarrow> None
                | Some e \<Rightarrow> Some (of_nat (digits_val fs) / 10 ^ length fs * 10 powi e)))
         else
           (case digitpart s of None \<Rightarrow> None
            | Some (ds, r1) \<Rightarrow>
               (case r1 of
                  [] \<Rightarrow> Some (of_nat (digits_val ds))
                | c1 # r2 \<Rightarrow>
                   if c1 = CHR ''.'' then
                     (let (fs, r3) = (case digitpart r2 of None \<Rightarrow> ([], r2) | Some p \<Rightarrow> p)
                      in case exponent r3 of None \<Rightarrow> None
                         | Some e \<Rightarrow>
                            Some ((of_nat (digits_val ds)
                                   + of_nat (digits_val fs) / 10 ^ length fs) * 10 powi e))
                   else
                     (case exponent r1 of None \<Rightarrow> None
                      | Some e \<Rightarrow> Some (of_nat (digits_val ds) * 10 powi e)))))"

definition float_of_str :: "string \<Rightarrow> pyfloat option" where
  "float_of_str s =
     (let t = strip s;
          (neg, u) = (case t of [] \<Rightarrow> (False, t)
                | c # r \<Rightarrow> if c = CHR ''-'' then (True, r)
                           else if c = CHR ''+'' then (False, r) else (False, t));
          w = map lower u
      in if w = ''inf'' \<or> w = ''infinity'' then Some (signed_inf neg)
         else if w = ''nan'' then Some NaN
         else (case floatnumber u of None \<Rightarrow> None
               | Some q \<Rightarrow> Some (if q = 0 then signed_zero neg
                                  else rnd (if neg then - q else q))))"

text \<open>
  \<open>float(n)\<close> for an \<open>int\<close> is the nearest double, and \<open>OverflowError\<close> when that is not
  finite.
\<close>

definition float_of_int :: "int \<Rightarrow> error + pyfloat" where
  "float_of_int n = (let r = rnd (of_int n) in if is_finite r then Inr r else Inl OverflowError)"

fun py_float :: "pyval \<Rightarrow> error + pyfloat" where
  "py_float (PInt n) = float_of_int n"
| "py_float (PFloat x) = Inr x"
| "py_float (PStr s) = (case float_of_str s of None \<Rightarrow> Inl ValueError | Some x \<Rightarrow> Inr x)"


subsection \<open>Numbers as strings\<close>

text \<open>The decimal digits of a non-negative integer.\<close>

function digits_of :: "int \<Rightarrow> string" where
  "digits_of n = (if n < 10 then [char_of (48 + n)]
                  else digits_of (n div 10) @ [char_of (48 + n mod 10)])"
  by auto
termination
  by (relation "measure nat") auto

text \<open>\<open>str(n)\<close> for a length and for an \<open>int\<close>.\<close>

definition str_nat :: "nat \<Rightarrow> string" where
  "str_nat n = digits_of (int n)"

definition str_int :: "int \<Rightarrow> string" where
  "str_int n = (if n < 0 then ''-'' @ digits_of (- n) else digits_of n)"

text \<open>A number below 100 in two digits, as \<open>%d\<close> and \<open>%02d\<close> give it.\<close>

definition two_digits :: "int \<Rightarrow> string" where
  "two_digits n = [char_of (48 + n div 10), char_of (48 + n mod 10)]"

text \<open>The number of decimal digits of a positive integer.\<close>

function digit_count :: "int \<Rightarrow> int" where
  "digit_count n = (if n < 10 then 1 else 1 + digit_count (n div 10))"
  by auto
termination
  by (relation "measure nat") auto

text \<open>\<open>ilog10 a\<close> is the integer \<open>k\<close> with \<open>10^k \<le> a < 10^(k+1)\<close>, for a positive \<open>a\<close>.\<close>

definition ilog10 :: "rat \<Rightarrow> int" where
  "ilog10 a = (let (p, q) = quotient_of a; d = digit_count p - digit_count q
               in if 10 powi d \<le> a then d else d - 1)"

text \<open>
  \<open>repr\<close> of a float is the shortest decimal that rounds to it. \<open>digits_at a n\<close> looks for a
  decimal of \<open>n\<close> significant digits \<open>c * 10^s\<close> that rounds to \<open>a\<close>, the nearer of the two
  neighbours of \<open>a\<close> when both do.
\<close>

definition digits_at :: "rat \<Rightarrow> nat \<Rightarrow> (int \<times> int) option" where
  "digits_at a n =
     (let s = ilog10 a - int n + 1; x = a / 10 powi s; lo = \<lfloor>x\<rfloor>; hi = lo + 1;
          ok_lo = (rnd (of_int lo * 10 powi s) = Fin a);
          ok_hi = (rnd (of_int hi * 10 powi s) = Fin a)
      in if ok_lo \<and> ok_hi then Some (if x - of_int lo \<le> of_int hi - x then lo else hi, s)
         else if ok_lo then Some (lo, s)
         else if ok_hi then Some (hi, s)
         else None)"

fun shortest_from :: "nat \<Rightarrow> nat \<Rightarrow> rat \<Rightarrow> int \<times> int" where
  "shortest_from 0 n a = (rhe (a / 10 powi (ilog10 a - int n + 1)), ilog10 a - int n + 1)"
| "shortest_from (Suc k) n a =
     (case digits_at a n of Some r \<Rightarrow> r | None \<Rightarrow> shortest_from k (Suc n) a)"

text \<open>
  The digits without trailing zeros and the position of the decimal point after the first
  \<open>decpt\<close> digits; 17 digits always suffice.
\<close>

definition repr_digits :: "rat \<Rightarrow> string \<times> int" where
  "repr_digits a =
     (let (c, s) = shortest_from 16 1 a; ds = digits_of c
      in (rev (dropWhile (\<lambda>ch. ch = CHR ''0'') (rev ds)), int (length ds) + s))"

definition format_repr :: "string \<Rightarrow> int \<Rightarrow> string" where
  "format_repr ds decpt =
     (if - 4 < decpt \<and> decpt \<le> 16 then
        (if decpt \<le> 0 then ''0.'' @ replicate (nat (- decpt)) CHR ''0'' @ ds
         else if int (length ds) \<le> decpt
           then ds @ replicate (nat decpt - length ds) CHR ''0'' @ ''.0''
         else take (nat decpt) ds @ ''.'' @ drop (nat decpt) ds)
      else
        take 1 ds @ (if 1 < length ds then ''.'' @ drop 1 ds else [])
          @ ''e'' @ (if decpt - 1 < 0 then ''-'' else ''+'')
          @ (let e = \<bar>decpt - 1\<bar> in if e < 10 then two_digits e else digits_of e))"

fun py_repr :: "pyfloat \<Rightarrow> string" where
  "py_repr (Fin q) =
     (if q = 0 then ''0.0''
      else (if q < 0 then ''-'' else []) @ (let (ds, decpt) = repr_digits \<bar>q\<bar> in format_repr ds decpt))"
| "py_repr NZero = ''-0.0''"
| "py_repr PInf = ''inf''"
| "py_repr NInf = ''-inf''"
| "py_repr NaN = ''nan''"

text \<open>\<open>str(v)\<close>, which is what an f-string field without a format gives.\<close>

fun py_str :: "pyval \<Rightarrow> string" where
  "py_str (PInt n) = str_int n"
| "py_str (PFloat x) = py_repr x"
| "py_str (PStr s) = s"

text \<open>\<open>sep.join(xs)\<close>\<close>

fun join :: "string \<Rightarrow> string list \<Rightarrow> string" where
  "join sep [] = []"
| "join sep [x] = x"
| "join sep (x # y # xs) = x @ sep @ join sep (y # xs)"

subsection \<open>Dates: \<open>datetime.fromisoformat\<close> and \<open>strftime\<close>\<close>

text \<open>
  Of a \<open>datetime\<close> only the calendar date reaches the output; the time of day and the time
  zone are parsed and checked. The parser works on the UTF-8 bytes of the string, as the
  interpreter does.
\<close>

record date =
  year :: int
  month :: int
  day :: int

definition is_leap :: "int \<Rightarrow> bool" where
  "is_leap y = (y mod 4 = 0 \<and> (y mod 100 \<noteq> 0 \<or> y mod 400 = 0))"

definition days_before_year :: "int \<Rightarrow> int" where
  "days_before_year y = (let z = y - 1 in z * 365 + z div 4 - z div 100 + z div 400)"

definition days_in_month :: "int \<Rightarrow> int \<Rightarrow> int" where
  "days_in_month y m =
     (if m = 2 \<and> is_leap y then 29
      else [31, 28, 31, 30, 31, 30, 31, 31, 30, 31, 30, 31] ! nat (m - 1))"

definition days_before_month :: "int \<Rightarrow> int \<Rightarrow> int" where
  "days_before_month y m = sum_list (map (days_in_month y) [1..m - 1])"

definition ymd2ord :: "int \<Rightarrow> int \<Rightarrow> int \<Rightarrow> int" where
  "ymd2ord y m d = days_before_year y + days_before_month y m + d"

text \<open>Monday is 0.\<close>

definition weekday :: "date \<Rightarrow> int" where
  "weekday dt = (ymd2ord (year dt) (month dt) (day dt) + 6) mod 7"

definition valid_date :: "int \<Rightarrow> int \<Rightarrow> int \<Rightarrow> bool" where
  "valid_date y m d =
     (1 \<le> y \<and> y \<le> 9999 \<and> 1 \<le> m \<and> m \<le> 12 \<and> 1 \<le> d \<and> d \<le> days_in_month y m)"

definition new_date :: "int \<Rightarrow> int \<Rightarrow> int \<Rightarrow> error + date" where
  "new_date y m d =
     (if valid_date y m d then Inr \<lparr>year = y, month = m, day = d\<rparr> else Inl ValueError)"

text \<open>The character at a position; past the end it is the terminating NUL.\<close>

definition char_at :: "string \<Rightarrow> nat \<Rightarrow> char" where
  "char_at s i = (if i < length s then s ! i else CHR 0x00)"

text \<open>\<open>n\<close> digits from position \<open>p\<close>: their value and the position after them.\<close>

definition parse_digits :: "string \<Rightarrow> nat \<Rightarrow> nat \<Rightarrow> (nat \<times> nat) option" where
  "parse_digits s p n =
     (let cs = map (char_at s) [p..<p + n]
      in if list_all is_digit cs then Some (digits_val (map digit_val cs), p + n) else None)"

definition find_isoformat_datetime_separator :: "string \<Rightarrow> nat option" where
  "find_isoformat_datetime_separator s =
     (let len = length s in
      if len = 7 then Some 7
      else if char_at s 4 = CHR ''-'' then
        (if char_at s 5 = CHR ''W'' then
           (if len < 8 then None
            else if 8 < len \<and> char_at s 8 = CHR ''-'' then
              (if len = 9 then None
               else if 10 < len \<and> is_digit (char_at s 10) then Some 8 else Some 10)
            else Some 8)
         else Some 10)
      else if char_at s 4 = CHR ''W'' then
        (let idx = 7 + length (takeWhile is_digit (drop 7 s))
         in if idx < 9 then Some idx else if even idx then Some 7 else Some 8)
      else Some 8)"

definition iso_week1_monday :: "int \<Rightarrow> int" where
  "iso_week1_monday y =
     (let firstday = ymd2ord y 1 1; firstweekday = (firstday + 6) mod 7;
          week1monday = firstday - firstweekday
      in if 3 < firstweekday then week1monday + 7 else week1monday)"

text \<open>The date of a day number that lies in the year \<open>y\<close> or next to it.\<close>

definition ord_near_year :: "int \<Rightarrow> int \<Rightarrow> int \<times> int \<times> int" where
  "ord_near_year y n =
     (if n \<le> days_before_year y then (y - 1, 12, 31 - (days_before_year y - n))
      else if days_before_year (y + 1) < n then (y + 1, 1, n - days_before_year (y + 1))
      else (let k = n - days_before_year y;
                m = int (length (filter (\<lambda>i. days_before_month y i < k) [1..12]))
            in (y, m, k - days_before_month y m)))"

definition iso_to_ymd :: "int \<Rightarrow> int \<Rightarrow> int \<Rightarrow> (int \<times> int \<times> int) option" where
  "iso_to_ymd y w d =
     (if y < 1 \<or> 9999 < y then None
      else if (w \<le> 0 \<or> 53 \<le> w) \<and>
              \<not> (w = 53 \<and> (let fw = ymd2ord y 1 1 mod 7 in fw = 4 \<or> (fw = 3 \<and> is_leap y)))
        then None
      else if d \<le> 0 \<or> 8 \<le> d then None
      else Some (ord_near_year y (iso_week1_monday y + (w - 1) * 7 + (d - 1))))"

definition parse_isoformat_date :: "string \<Rightarrow> nat \<Rightarrow> (int \<times> int \<times> int) option" where
  "parse_isoformat_date s len =
     (case parse_digits s 0 4 of None \<Rightarrow> None
      | Some (y, p0) \<Rightarrow>
         let uses_separator = (char_at s p0 = CHR ''-'');
             p1 = (if uses_separator then p0 + 1 else p0)
         in if char_at s p1 = CHR ''W'' then
              (case parse_digits s (p1 + 1) 2 of None \<Rightarrow> None
               | Some (w, p2) \<Rightarrow>
                  if p2 < len then
                    (if uses_separator \<and> char_at s p2 \<noteq> CHR ''-'' then None
                     else (case parse_digits s (if uses_separator then p2 + 1 else p2) 1 of
                             None \<Rightarrow> None
                           | Some (d, p3) \<Rightarrow> iso_to_ymd (int y) (int w) (int d)))
                  else iso_to_ymd (int y) (int w) 1)
            else
              (case parse_digits s p1 2 of None \<Rightarrow> None
               | Some (m, p2) \<Rightarrow>
                  if uses_separator \<and> char_at s p2 \<noteq> CHR ''-'' then None
                  else (case parse_digits s (if uses_separator then p2 + 1 else p2) 2 of
                          None \<Rightarrow> None
                        | Some (d, p3) \<Rightarrow> Some (int y, int m, int d))))"

text \<open>
  The hour, minute, second part between two positions. The result is the three fields and
  whether something is left at the position where parsing stopped.
\<close>

datatype hms_state = Next | Fraction | Done bool | Bad

definition hms_field :: "string \<Rightarrow> nat \<Rightarrow> nat \<Rightarrow> bool \<Rightarrow> bool \<Rightarrow> (nat \<times> nat \<times> bool \<times> hms_state) option" where
  "hms_field s p e first has_sep =
     (case parse_digits s p 2 of None \<Rightarrow> None
      | Some (v, p1) \<Rightarrow>
         let c = char_at s p1; p2 = p1 + 1; hs = (if first then c = CHR '':'' else has_sep)
         in Some (v, if e \<le> p2 then (p2, hs, Done (c \<noteq> CHR 0x00))
                     else if hs \<and> c = CHR '':'' then (p2, hs, Next)
                     else if c = CHR ''.'' \<or> c = CHR '','' then (p2, hs, Fraction)
                     else if \<not> hs then (p1, hs, Next)
                     else (p2, hs, Bad)))"

definition parse_fraction :: "string \<Rightarrow> nat \<Rightarrow> nat \<Rightarrow> bool option" where
  "parse_fraction s p e =
     (let to_parse = min (e - p) 6
      in case parse_digits s p to_parse of None \<Rightarrow> None
         | Some (us, p1) \<Rightarrow>
            Some (char_at s (p1 + length (takeWhile is_digit (drop p1 s))) \<noteq> CHR 0x00))"

definition parse_hh_mm_ss_ff :: "string \<Rightarrow> nat \<Rightarrow> nat \<Rightarrow> ((nat \<times> nat \<times> nat) \<times> bool) option" where
  "parse_hh_mm_ss_ff s p e =
     (case hms_field s p e True True of None \<Rightarrow> None
      | Some (h, p1, hs, st1) \<Rightarrow>
        (case st1 of Bad \<Rightarrow> None
         | Done r \<Rightarrow> Some ((h, 0, 0), r)
         | Fraction \<Rightarrow> map_option (Pair (h, 0, 0)) (parse_fraction s p1 e)
         | Next \<Rightarrow>
           (case hms_field s p1 e False hs of None \<Rightarrow> None
            | Some (m, p2, hs2, st2) \<Rightarrow>
              (case st2 of Bad \<Rightarrow> None
               | Done r \<Rightarrow> Some ((h, m, 0), r)
               | Fraction \<Rightarrow> map_option (Pair (h, m, 0)) (parse_fraction s p2 e)
               | Next \<Rightarrow>
                 (case hms_field s p2 e False hs of None \<Rightarrow> None
                  | Some (sec, p3, hs3, st3) \<Rightarrow>
                    (case st3 of Bad \<Rightarrow> None
                     | Done r \<Rightarrow> Some ((h, m, sec), r)
                     | _ \<Rightarrow> map_option (Pair (h, m, sec)) (parse_fraction s p3 e)))))))"

text \<open>The time zone offset, if there is one, starts at the first \<open>Z\<close>, \<open>+\<close> or \<open>-\<close>.\<close>

definition is_tz_char :: "char \<Rightarrow> bool" where
  "is_tz_char c = (c = CHR ''Z'' \<or> c = CHR ''+'' \<or> c = CHR ''-'')"

definition time_fields_ok :: "nat \<times> nat \<times> nat \<Rightarrow> bool" where
  "time_fields_ok t = (case t of (h, m, sec) \<Rightarrow> h \<le> 23 \<and> m \<le> 59 \<and> sec \<le> 59)"

text \<open>Whether the time that starts at position \<open>p\<close> is accepted.\<close>

definition parse_isoformat_time :: "string \<Rightarrow> nat \<Rightarrow> bool" where
  "parse_isoformat_time s p =
     (let e = length s;
          tz = p + length (takeWhile (\<lambda>c. \<not> is_tz_char c) (drop p s))
      in case parse_hh_mm_ss_ff s p tz of None \<Rightarrow> False
         | Some (t, rest) \<Rightarrow>
            if tz = e then \<not> rest \<and> time_fields_ok t
            else if char_at s tz = CHR ''Z'' then char_at s (tz + 1) = CHR 0x00 \<and> time_fields_ok t
            else (case parse_hh_mm_ss_ff s (tz + 1) e of None \<Rightarrow> False
                  | Some ((h, m, sec), rest') \<Rightarrow>
                     \<not> rest' \<and> h * 3600 + m * 60 + sec < 86400 \<and> time_fields_ok t))"

text \<open>The UTF-8 bytes of a string of code points below 256.\<close>

definition utf8 :: "string \<Rightarrow> string" where
  "utf8 s = concat (map (\<lambda>c. let n = (of_char c :: nat)
                              in if n < 128 then [c]
                                 else [char_of (192 + n div 64), char_of (128 + n mod 64)]) s)"

text \<open>The number of bytes of the character that starts with the byte \<open>c\<close>.\<close>

definition utf8_width :: "char \<Rightarrow> nat" where
  "utf8_width c = (let n = (of_char c :: nat)
                   in if n < 128 then 1 else if n div 16 = 14 then 3 else if n div 16 = 15 then 4 else 2)"

definition fromisoformat :: "string \<Rightarrow> error + date" where
  "fromisoformat date_string =
     (let s = utf8 date_string in
      if length s < 7 then Inl ValueError
      else (case find_isoformat_datetime_separator s of None \<Rightarrow> Inl ValueError
            | Some sep \<Rightarrow>
               (case parse_isoformat_date s sep of None \<Rightarrow> Inl ValueError
                | Some (y, m, d) \<Rightarrow>
                   if sep < length s \<and> \<not> parse_isoformat_time s (sep + utf8_width (char_at s sep))
                   then Inl ValueError
                   else new_date y m d)))"


definition day_names :: "string list" where
  "day_names = [''Monday'', ''Tuesday'', ''Wednesday'', ''Thursday'', ''Friday'', ''Saturday'',
                ''Sunday'']"

definition month_names :: "string list" where
  "month_names = [''January'', ''February'', ''March'', ''April'', ''May'', ''June'', ''July'',
                  ''August'', ''September'', ''October'', ''November'', ''December'']"

text \<open>
  \<open>strftime("%A %d %B %Y")\<close> in the C locale: \<open>%d\<close> has two digits and \<open>%Y\<close> is the year
  without padding.
\<close>

definition strftime_A_d_B_Y :: "date \<Rightarrow> string" where
  "strftime_A_d_B_Y dt =
     day_names ! nat (weekday dt) @ '' '' @ two_digits (day dt) @ '' ''
       @ month_names ! nat (month dt - 1) @ '' '' @ str_nat (nat (year dt))"

section \<open>The program\<close>

subsection \<open>Formatting\<close>

definition DEGREE_SYMBOL :: string where
  "DEGREE_SYMBOL = [CHR 0xB0, CHR ''C'']"

definition format_temperature :: "pyval \<Rightarrow> string" where
  "format_temperature temp = py_str temp @ DEGREE_SYMBOL"

definition convert_date :: "string \<Rightarrow> error + string" where
  "convert_date iso_string =
     attempt (fromisoformat iso_string) (\<lambda>dt. Inr (strftime_A_d_B_Y dt))"

subsection \<open>Unit conversion\<close>

text \<open>\<open>(float(temp_in_fahrenheit) - 32) * 5 / 9\<close>, then \<open>round(_, 1)\<close>.\<close>

definition convert_f_to_c :: "pyval \<Rightarrow> error + pyfloat" where
  "convert_f_to_c temp_in_fahrenheit =
     attempt (py_float temp_in_fahrenheit) (\<lambda>f.
     attempt (fdiv (fmul (fsub f (Fin 32)) (Fin 5)) (Fin 9)) (\<lambda>temp_in_celsius.
     Inr (round1 temp_in_celsius)))"

subsection \<open>Statistics\<close>

text \<open>What a function returns that returns either a string or a float.\<close>

datatype pyres = RStr string | RFloat pyfloat

definition no_data :: string where
  "no_data = ''No daily weather data available.''"

text \<open>\<open>sum\<close> of a list of floats starts from \<open>0\<close> and adds from the left.\<close>

definition py_sum :: "pyfloat list \<Rightarrow> pyfloat" where
  "py_sum xs = foldl fadd (Fin 0) xs"

definition calculate_mean :: "pyval list \<Rightarrow> error + pyres" where
  "calculate_mean weather_data =
     (if weather_data = [] then Inr (RStr no_data)
      else attempt (traverse py_float weather_data) (\<lambda>numeric_data.
           attempt (fdiv (py_sum numeric_data) (Fin (of_nat (length numeric_data)))) (\<lambda>m.
           Inr (RFloat m))))"

text \<open>
  \<open>min\<close> and \<open>max\<close> of a non-empty list keep the first element until a later one is
  strictly smaller, respectively larger.
\<close>

definition py_min :: "pyfloat \<Rightarrow> pyfloat list \<Rightarrow> pyfloat" where
  "py_min x xs = foldl (\<lambda>m y. if py_lt y m then y else m) x xs"

definition py_max :: "pyfloat \<Rightarrow> pyfloat list \<Rightarrow> pyfloat" where
  "py_max x xs = foldl (\<lambda>m y. if py_gt y m then y else m) x xs"

text \<open>
  \<open>xs.index(v)\<close>: the position of the first element that is \<open>v\<close> or equal to \<open>v\<close>, and
  \<open>ValueError\<close> when there is none. Being the same object is modelled as being the same
  value.
\<close>

fun py_index :: "pyfloat list \<Rightarrow> pyfloat \<Rightarrow> error + nat" where
  "py_index [] v = Inl ValueError"
| "py_index (x # xs) v =
     (if x = v \<or> py_eq x v then Inr 0 else attempt (py_index xs v) (\<lambda>i. Inr (Suc i)))"

text \<open>The empty tuple is \<open>None\<close>, a pair of the value and its index is \<open>Some\<close>.\<close>

definition find_min :: "pyval list \<Rightarrow> error + (pyfloat \<times> int) option" where
  "find_min weather_data =
     attempt (traverse py_float weather_data) (\<lambda>numeric_data.
       case numeric_data of
         [] \<Rightarrow> Inr None
       | x # xs \<Rightarrow>
          (let min_value = py_min x xs
           in attempt (py_index (rev numeric_data) min_value) (\<lambda>i.
              Inr (Some (min_value, int (length numeric_data) - 1 - int i)))))"

definition find_max :: "pyval list \<Rightarrow> error + (pyfloat \<times> int) option" where
  "find_max weather_data =
     attempt (traverse py_float weather_data) (\<lambda>numeric_data.
       case numeric_data of
         [] \<Rightarrow> Inr None
       | x # xs \<Rightarrow>
          (let max_value = py_max x xs
           in attempt (py_index (rev numeric_data) max_value) (\<lambda>i.
              Inr (Some (max_value, int (length numeric_data) - 1 - int i)))))"

subsection \<open>Reports\<close>

text \<open>A day of weather data: the date, the minimum and the maximum in Fahrenheit.\<close>

type_synonym day = "string \<times> pyval \<times> pyval"

text \<open>The variables of the loop of \<open>generate_summary\<close>.\<close>

record summary_state =
  min_temp :: pyfloat
  max_temp :: pyfloat
  min_day :: string
  max_day :: string
  total_min :: pyfloat
  total_max :: pyfloat

definition summary_init :: summary_state where
  "summary_init = \<lparr>min_temp = PInf, max_temp = NInf, min_day = [], max_day = [],
                    total_min = Fin 0, total_max = Fin 0\<rparr>"

fun summary_loop :: "summary_state \<Rightarrow> day list \<Rightarrow> error + summary_state" where
  "summary_loop st [] = Inr st"
| "summary_loop st ((date_str, min_f, max_f) # days) =
     attempt (convert_f_to_c min_f) (\<lambda>min_c.
     attempt (convert_f_to_c max_f) (\<lambda>max_c.
       let st1 = st\<lparr>total_min := fadd (total_min st) min_c,
                     total_max := fadd (total_max st) max_c\<rparr>;
           st2 = (if py_lt min_c (min_temp st1)
                  then st1\<lparr>min_temp := min_c, min_day := date_str\<rparr> else st1);
           st3 = (if py_gt max_c (max_temp st2)
                  then st2\<lparr>max_temp := max_c, max_day := date_str\<rparr> else st2)
       in summary_loop st3 days))"

text \<open>The length of a list is below \<open>2^53\<close>, so that it converts to a float exactly.\<close>

definition float_len :: "'a list \<Rightarrow> pyfloat" where
  "float_len xs = Fin (of_nat (length xs))"

definition generate_summary :: "day list \<Rightarrow> error + string" where
  "generate_summary weather_data =
     (if weather_data = [] then Inr no_data
      else
        attempt (summary_loop summary_init weather_data) (\<lambda>st.
        attempt (fdiv (total_min st) (float_len weather_data)) (\<lambda>q_min.
        attempt (fdiv (total_max st) (float_len weather_data)) (\<lambda>q_max.
        let avg_min = round1 q_min; avg_max = round1 q_max in
        attempt (fromisoformat (min_day st)) (\<lambda>d_min.
        attempt (fromisoformat (max_day st)) (\<lambda>d_max.
        let min_day_formatted = strftime_A_d_B_Y d_min;
            max_day_formatted = strftime_A_d_B_Y d_max
        in Inr (str_nat (length weather_data) @ '' Day Overview'' @ [CHR 0x0A]
                @ ''  The lowest temperature will be ''
                @ format_temperature (PFloat (min_temp st)) @ '', and will occur on ''
                @ min_day_formatted @ ''.'' @ [CHR 0x0A]
                @ ''  The highest temperature will be ''
                @ format_temperature (PFloat (max_temp st)) @ '', and will occur on ''
                @ max_day_formatted @ ''.'' @ [CHR 0x0A]
                @ ''  The average low this week is ''
                @ format_temperature (PFloat avg_min) @ ''.'' @ [CHR 0x0A]
                @ ''  The average high this week is ''
                @ format_temperature (PFloat avg_max) @ ''.'' @ [CHR 0x0A])))))))"

text \<open>
  The loop of \<open>generate_daily_summary\<close>: \<open>n\<close> is the number of days and \<open>i\<close> the index of the
  day at the head of the list.
\<close>

fun daily_loop :: "nat \<Rightarrow> nat \<Rightarrow> day list \<Rightarrow> error + string list" where
  "daily_loop n i [] = Inr []"
| "daily_loop n i ((date_str, min_f, max_f) # days) =
     attempt (fromisoformat date_str) (\<lambda>dt.
     let date = strftime_A_d_B_Y dt in
     attempt (convert_f_to_c min_f) (\<lambda>c_min.
     attempt (convert_f_to_c max_f) (\<lambda>c_max.
     let min_c = round1 c_min; max_c = round1 c_max;
         line1 = ''---- '' @ date @ '' ----'';
         line2 = ''  Minimum Temperature: '' @ format_temperature (PFloat min_c);
         line3 = ''  Maximum Temperature: '' @ format_temperature (PFloat max_c);
         summary_lines = (if int i = int n - 1 then [line1, line2, line3 @ ''-'']
                          else [line1, line2, line3])
     in attempt (daily_loop n (Suc i) days) (\<lambda>daily_summaries.
        Inr (join [CHR 0x0A] summary_lines # daily_summaries)))))"

definition generate_daily_summary :: "day list \<Rightarrow> error + string" where
  "generate_daily_summary weather_data =
     (if weather_data = [] then Inr no_data
      else attempt (daily_loop (length weather_data) 0 weather_data) (\<lambda>daily_summaries.
           Inr (str_nat (length weather_data) @ '' Day Overview'' @ [CHR 0x0A, CHR 0x0A]
                @ join [CHR 0x0A, CHR 0x0A] daily_summaries)))"

subsection \<open>What the reports are specified to be\<close>

text \<open>
  A day record of the data model: a date that the parser accepts and two integer
  temperatures. Their size is bounded so that the conversion to Celsius cannot overflow.
\<close>

definition is_temperature :: "pyval \<Rightarrow> bool" where
  "is_temperature v = (case v of PInt n \<Rightarrow> \<bar>n\<bar> \<le> 10 ^ 100 | _ \<Rightarrow> False)"

definition day_record :: "day \<Rightarrow> bool" where
  "day_record d = (case d of (date_str, min_f, max_f) \<Rightarrow>
     \<not> isl (fromisoformat date_str) \<and> is_temperature min_f \<and> is_temperature max_f)"

text \<open>The converted minimum and maximum of a day.\<close>

definition min_celsius :: "day \<Rightarrow> error + pyfloat" where
  "min_celsius d = convert_f_to_c (fst (snd d))"

definition max_celsius :: "day \<Rightarrow> error + pyfloat" where
  "max_celsius d = convert_f_to_c (snd (snd d))"

text \<open>
  \<open>k\<close> is the first position of the least, respectively greatest, value of a list: no value
  is below it and every value before it is strictly above it.
\<close>

definition first_min_index :: "pyfloat list \<Rightarrow> nat \<Rightarrow> bool" where
  "first_min_index cs k =
     (k < length cs \<and> list_all (\<lambda>j. \<not> py_lt (cs ! j) (cs ! k)) [0..<length cs]
      \<and> list_all (\<lambda>j. py_lt (cs ! k) (cs ! j)) [0..<k])"

definition first_max_index :: "pyfloat list \<Rightarrow> nat \<Rightarrow> bool" where
  "first_max_index cs k =
     (k < length cs \<and> list_all (\<lambda>j. \<not> py_lt (cs ! k) (cs ! j)) [0..<length cs]
      \<and> list_all (\<lambda>j. py_lt (cs ! j) (cs ! k)) [0..<k])"

text \<open>The running extremum with its day: a new pair replaces the current one only when
  its value is strictly lower, respectively higher.\<close>

definition keep_lower :: "pyfloat \<times> string \<Rightarrow> pyfloat \<times> string \<Rightarrow> pyfloat \<times> string" where
  "keep_lower cur new = (if py_lt (fst new) (fst cur) then new else cur)"

definition keep_higher :: "pyfloat \<times> string \<Rightarrow> pyfloat \<times> string \<Rightarrow> pyfloat \<times> string" where
  "keep_higher cur new = (if py_gt (fst new) (fst cur) then new else cur)"

text \<open>The five lines of the aggregate report, from the rendered temperatures and dates.\<close>

definition summary_report :: "nat \<Rightarrow> string \<Rightarrow> string \<Rightarrow> string \<Rightarrow> string \<Rightarrow> string \<Rightarrow> string \<Rightarrow> string" where
  "summary_report n lowest lowest_day highest highest_day avg_low avg_high =
     str_nat n @ '' Day Overview'' @ [CHR 0x0A]
     @ ''  The lowest temperature will be '' @ lowest @ DEGREE_SYMBOL
     @ '', and will occur on '' @ lowest_day @ ''.'' @ [CHR 0x0A]
     @ ''  The highest temperature will be '' @ highest @ DEGREE_SYMBOL
     @ '', and will occur on '' @ highest_day @ ''.'' @ [CHR 0x0A]
     @ ''  The average low this week is '' @ avg_low @ DEGREE_SYMBOL @ ''.'' @ [CHR 0x0A]
     @ ''  The average high this week is '' @ avg_high @ DEGREE_SYMBOL @ ''.'' @ [CHR 0x0A]"


section \<open>Properties\<close>

subsection \<open>The order of floats, \<open>min\<close>, \<open>max\<close> and \<open>index\<close>\<close>

lemma attempt_Inr_iff: "attempt r f = Inr y \<longleftrightarrow> (\<exists>v. r = Inr v \<and> f v = Inr y)"
  by (cases r) (simp_all add: attempt_def)

lemma py_eq_refl: "x \<noteq> NaN \<Longrightarrow> py_eq x x"
  by (cases x) simp_all

lemma py_lt_asym: "py_lt a b \<Longrightarrow> \<not> py_lt b a"
  by (cases a; cases b) simp_all

lemma py_lt_negtrans:
  "a \<noteq> NaN \<Longrightarrow> b \<noteq> NaN \<Longrightarrow> c \<noteq> NaN \<Longrightarrow> \<not> py_lt a b \<Longrightarrow> \<not> py_lt b c \<Longrightarrow> \<not> py_lt a c"
  by (cases a; cases b; cases c) simp_all

lemma py_min_spec:
  "NaN \<notin> set (x # xs) \<Longrightarrow>
     py_min x xs \<in> set (x # xs) \<and> (\<forall>y\<in>set (x # xs). \<not> py_lt y (py_min x xs))"
proof (induction xs arbitrary: x)
  case Nil
  then show ?case by (cases x) (simp_all add: py_min_def)
next
  case (Cons y ys)
  let ?x' = "if py_lt y x then y else x"
  let ?d = "if py_lt y x then x else y"
  have step: "py_min x (y # ys) = py_min ?x' ys" by (simp add: py_min_def)
  have nn: "NaN \<notin> set (?x' # ys)" using Cons.prems by auto
  from Cons.IH [OF nn]
  have mem: "py_min ?x' ys \<in> set (?x' # ys)"
    and low: "\<forall>z\<in>set (?x' # ys). \<not> py_lt z (py_min ?x' ys)" by blast+
  have m_nn: "py_min ?x' ys \<noteq> NaN" using mem nn by metis
  have d1: "\<not> py_lt ?d ?x'" by (auto dest: py_lt_asym)
  have d2: "\<not> py_lt ?x' (py_min ?x' ys)" using low by simp
  have d_nn: "?d \<noteq> NaN" "?x' \<noteq> NaN" using Cons.prems by auto
  have d3: "\<not> py_lt ?d (py_min ?x' ys)"
    using py_lt_negtrans [OF d_nn(1) d_nn(2) m_nn d1 d2] .
  have all: "\<forall>z\<in>set (x # y # ys). \<not> py_lt z (py_min ?x' ys)"
    using low d3 by (auto split: if_splits)
  have "py_min ?x' ys \<in> set (x # y # ys)" using mem by (auto split: if_splits)
  with all step show ?case by simp
qed

lemma py_index_spec:
  "py_index ys v = Inr i \<Longrightarrow>
     i < length ys \<and> (ys ! i = v \<or> py_eq (ys ! i) v) \<and> (\<forall>j<i. \<not> (ys ! j = v \<or> py_eq (ys ! j) v))"
proof (induction ys arbitrary: i)
  case Nil
  then show ?case by simp
next
  case (Cons y ys)
  show ?case
  proof (cases "y = v \<or> py_eq y v")
    case True
    with Cons.prems show ?thesis by auto
  next
    case False
    with Cons.prems obtain i' where i': "py_index ys v = Inr i'" "i = Suc i'"
      by (auto simp: attempt_Inr_iff)
    from Cons.IH [OF i'(1)] False i'(2) show ?thesis
      by (auto simp: less_Suc_eq_0_disj)
  qed
qed

lemma py_index_total: "v \<in> set ys \<Longrightarrow> \<exists>i. py_index ys v = Inr i"
  by (induction ys) (auto simp: attempt_def)

lemma py_max_spec:
  "NaN \<notin> set (x # xs) \<Longrightarrow>
     py_max x xs \<in> set (x # xs) \<and> (\<forall>y\<in>set (x # xs). \<not> py_lt (py_max x xs) y)"
proof (induction xs arbitrary: x)
  case Nil
  then show ?case by (cases x) (simp_all add: py_max_def)
next
  case (Cons y ys)
  let ?x' = "if py_lt x y then y else x"
  let ?d = "if py_lt x y then x else y"
  have step: "py_max x (y # ys) = py_max ?x' ys" by (simp add: py_max_def py_gt_def)
  have nn: "NaN \<notin> set (?x' # ys)" using Cons.prems by auto
  from Cons.IH [OF nn]
  have mem: "py_max ?x' ys \<in> set (?x' # ys)"
    and high: "\<forall>z\<in>set (?x' # ys). \<not> py_lt (py_max ?x' ys) z" by blast+
  have m_nn: "py_max ?x' ys \<noteq> NaN" using mem nn by metis
  have d1: "\<not> py_lt ?x' ?d" by (auto dest: py_lt_asym)
  have d2: "\<not> py_lt (py_max ?x' ys) ?x'" using high by simp
  have d_nn: "?d \<noteq> NaN" "?x' \<noteq> NaN" using Cons.prems by auto
  have d3: "\<not> py_lt (py_max ?x' ys) ?d"
    using py_lt_negtrans [OF m_nn d_nn(2) d_nn(1) d2 d1] .
  have all: "\<forall>z\<in>set (x # y # ys). \<not> py_lt (py_max ?x' ys) z"
    using high d3 by (auto split: if_splits)
  have "py_max ?x' ys \<in> set (x # y # ys)" using mem by (auto split: if_splits)
  with all step show ?case by simp
qed

lemma last_occurrence:
  assumes nd: "nd \<noteq> []" and nn: "NaN \<notin> set nd" and m: "m \<in> set nd"
  shows "\<exists>k. attempt (py_index (rev nd) m) (\<lambda>i. Inr (Some (m, int (length nd) - 1 - int i)))
               = Inr (Some (m, int k))
             \<and> k < length nd \<and> py_eq (nd ! k) m
             \<and> (\<forall>j. k < j \<and> j < length nd \<longrightarrow> \<not> py_eq (nd ! j) m)"
proof -
  from m have "m \<in> set (rev nd)" by simp
  then obtain i where i: "py_index (rev nd) m = Inr i" using py_index_total by blast
  from py_index_spec [OF i]
  have il: "i < length nd"
    and hit: "rev nd ! i = m \<or> py_eq (rev nd ! i) m"
    and first: "\<forall>j<i. \<not> (rev nd ! j = m \<or> py_eq (rev nd ! j) m)" by simp_all
  let ?k = "length nd - 1 - i"
  have k: "?k < length nd" using il by simp
  have ik: "int (length nd) - 1 - int i = int ?k" using il by simp
  have ri: "rev nd ! i = nd ! ?k" using il by (simp add: rev_nth)
  have m_nn: "m \<noteq> NaN" using m nn by metis
  have eqk: "py_eq (nd ! ?k) m" using hit ri m_nn py_eq_refl by metis
  have later: "\<not> py_eq (nd ! j) m" if "?k < j" "j < length nd" for j
  proof -
    let ?j' = "length nd - 1 - j"
    have "?j' < i" using that il by simp
    moreover have "rev nd ! ?j' = nd ! j" using that by (simp add: rev_nth)
    ultimately show ?thesis using first by metis
  qed
  show ?thesis
    using i ik k eqk later by (intro exI [of _ ?k]) (simp add: attempt_def)
qed

lemma find_min_general:
  assumes tr: "traverse py_float vs = Inr nd" and nd: "nd \<noteq> []" and nn: "NaN \<notin> set nd"
  shows "\<exists>m k. find_min vs = Inr (Some (m, int k)) \<and> k < length nd \<and> m \<in> set nd
           \<and> (\<forall>y\<in>set nd. \<not> py_lt y m) \<and> py_eq (nd ! k) m
           \<and> (\<forall>j. k < j \<and> j < length nd \<longrightarrow> \<not> py_eq (nd ! j) m)"
proof -
  from nd obtain x xs where xs: "nd = x # xs" by (cases nd) auto
  let ?m = "py_min x xs"
  have sp: "?m \<in> set nd" "\<forall>y\<in>set nd. \<not> py_lt y ?m"
    using py_min_spec [of x xs] nn xs by simp_all
  from last_occurrence [OF nd nn sp(1)] obtain k where
    k: "attempt (py_index (rev nd) ?m) (\<lambda>i. Inr (Some (?m, int (length nd) - 1 - int i)))
          = Inr (Some (?m, int k))"
       "k < length nd" "py_eq (nd ! k) ?m"
       "\<forall>j. k < j \<and> j < length nd \<longrightarrow> \<not> py_eq (nd ! j) ?m" by blast
  have "find_min vs = Inr (Some (?m, int k))"
    using k(1) by (simp add: find_min_def tr attempt_def xs)
  with k sp show ?thesis by blast
qed

lemma find_max_general:
  assumes tr: "traverse py_float vs = Inr nd" and nd: "nd \<noteq> []" and nn: "NaN \<notin> set nd"
  shows "\<exists>m k. find_max vs = Inr (Some (m, int k)) \<and> k < length nd \<and> m \<in> set nd
           \<and> (\<forall>y\<in>set nd. \<not> py_lt m y) \<and> py_eq (nd ! k) m
           \<and> (\<forall>j. k < j \<and> j < length nd \<longrightarrow> \<not> py_eq (nd ! j) m)"
proof -
  from nd obtain x xs where xs: "nd = x # xs" by (cases nd) auto
  let ?m = "py_max x xs"
  have sp: "?m \<in> set nd" "\<forall>y\<in>set nd. \<not> py_lt ?m y"
    using py_max_spec [of x xs] nn xs by simp_all
  from last_occurrence [OF nd nn sp(1)] obtain k where
    k: "attempt (py_index (rev nd) ?m) (\<lambda>i. Inr (Some (?m, int (length nd) - 1 - int i)))
          = Inr (Some (?m, int k))"
       "k < length nd" "py_eq (nd ! k) ?m"
       "\<forall>j. k < j \<and> j < length nd \<longrightarrow> \<not> py_eq (nd ! j) ?m" by blast
  have "find_max vs = Inr (Some (?m, int k))"
    using k(1) by (simp add: find_max_def tr attempt_def xs)
  with k sp show ?thesis by blast
qed

lemma find_min_example: "find_min [PInt 1, PInt 2, PInt 1, PInt 3] = Inr (Some (Fin 1, 2))"
  by code_simp

lemma find_max_example: "find_max [PInt 3, PInt 1, PInt 3, PInt 2] = Inr (Some (Fin 3, 2))"
  by code_simp

lemma find_empty: "find_min [] = Inr None" "find_max [] = Inr None"
  by (simp_all add: find_min_def find_max_def attempt_def)

text \<open>
  Claim C2. For a non-empty list of numbers, \<open>find_min\<close> returns the minimum of the converted
  values and the 0-based index of its last occurrence, and \<open>find_max\<close> the maximum and the
  index of its last occurrence; both return the empty result for the empty list; and
  \<open>find_min([1,2,1,3]) == (1.0, 2)\<close>, \<open>find_max([3,1,3,2]) == (3.0, 2)\<close>. A list of numbers
  is one whose conversion by \<open>float\<close> succeeds and holds no NaN.
\<close>

theorem find_min_max_last_occurrence:
  assumes "traverse py_float vs = Inr nd" and "nd \<noteq> []" and "NaN \<notin> set nd"
  shows "(\<exists>m k. find_min vs = Inr (Some (m, int k)) \<and> k < length nd \<and> m \<in> set nd
            \<and> (\<forall>y\<in>set nd. \<not> py_lt y m) \<and> py_eq (nd ! k) m
            \<and> (\<forall>j. k < j \<and> j < length nd \<longrightarrow> \<not> py_eq (nd ! j) m))
       \<and> (\<exists>m k. find_max vs = Inr (Some (m, int k)) \<and> k < length nd \<and> m \<in> set nd
            \<and> (\<forall>y\<in>set nd. \<not> py_lt m y) \<and> py_eq (nd ! k) m
            \<and> (\<forall>j. k < j \<and> j < length nd \<longrightarrow> \<not> py_eq (nd ! j) m))
       \<and> find_min [] = Inr None \<and> find_max [] = Inr None
       \<and> find_min [PInt 1, PInt 2, PInt 1, PInt 3] = Inr (Some (Fin 1, 2))
       \<and> find_max [PInt 3, PInt 1, PInt 3, PInt 2] = Inr (Some (Fin 3, 2))"
  using find_min_general [OF assms] find_max_general [OF assms] find_empty
    find_min_example find_max_example
  by blast

theorem find_min_max_last_occurrence_witness:
  "traverse py_float [PInt 1, PInt 2, PInt 1, PInt 3] = Inr [Fin 1, Fin 2, Fin 1, Fin 3]
   \<and> (\<exists>m k. find_min [PInt 1, PInt 2, PInt 1, PInt 3] = Inr (Some (m, int k))
          \<and> k < length [Fin 1, Fin 2, Fin 1, Fin 3]
          \<and> (\<forall>y\<in>set [Fin 1, Fin 2, Fin 1, Fin 3]. \<not> py_lt y m)
          \<and> (\<forall>j. k < j \<and> j < length [Fin 1, Fin 2, Fin 1, Fin 3]
                 \<longrightarrow> \<not> py_eq ([Fin 1, Fin 2, Fin 1, Fin 3] ! j) m))"
proof -
  have h1: "traverse py_float [PInt 1, PInt 2, PInt 1, PInt 3] = Inr [Fin 1, Fin 2, Fin 1, Fin 3]"
    by code_simp
  have h2: "[Fin 1, Fin 2, Fin 1, Fin 3] \<noteq> []" by simp
  have h3: "NaN \<notin> set [Fin 1, Fin 2, Fin 1, Fin 3]" by simp
  from find_min_max_last_occurrence [OF h1 h2 h3] h1 show ?thesis by blast
qed

subsection \<open>Rounding stays finite\<close>

lemma rhe_upper: "of_int (rhe y) \<le> y + 1/2"
  unfolding rhe_def Let_def by (auto simp: not_less) linarith+

lemma rhe_lower: "y - 1/2 \<le> of_int (rhe y)"
  unfolding rhe_def Let_def by (auto simp: not_less) linarith+

lemma rhe_nonneg: "0 \<le> y \<Longrightarrow> 0 \<le> rhe y"
  using rhe_lower [of y] by linarith

lemma ilog2_le:
  assumes "0 < a"
  shows "2 powi (ilog2 a) \<le> a"
proof -
  obtain p q where pq: "quotient_of a = (p, q)" by (cases "quotient_of a")
  have q: "0 < q" using quotient_of_denom_pos [OF pq] .
  have a: "a = of_int p / of_int q" using quotient_of_div [OF pq] .
  have p: "0 < p" using assms q a by (simp add: zero_less_divide_iff)
  let ?d = "bitlen p - bitlen q"
  show ?thesis
  proof (cases "2 powi ?d \<le> a")
    case True
    then show ?thesis by (simp add: ilog2_def pq)
  next
    case False
    have bp: "2 ^ nat (bitlen p - 1) \<le> p" using bitlen_bounds [OF p] by simp
    have bq: "q < 2 ^ nat (bitlen q)" using bitlen_bounds [OF q] by simp
    have bp1: "1 \<le> bitlen p" using p bitlen_eq_zero_iff [of p] bitlen_nonneg [of p] by (cases "bitlen p = 0") auto
    have bq0: "0 \<le> bitlen q" by (rule bitlen_nonneg)
    have P: "(2::rat) powi (bitlen p - 1) \<le> of_int p"
    proof -
      have "(2::rat) powi (bitlen p - 1) = 2 ^ nat (bitlen p - 1)"
        using bp1 by (simp add: power_int_def)
      also have "\<dots> = of_int (2 ^ nat (bitlen p - 1))" by simp
      also have "\<dots> \<le> of_int p" using bp of_int_le_iff by blast
      finally show ?thesis .
    qed
    have Q: "of_int q \<le> (2::rat) powi (bitlen q)"
    proof -
      have "(of_int q :: rat) \<le> of_int (2 ^ nat (bitlen q))" using bq less_imp_le of_int_le_iff by blast
      also have "\<dots> = 2 powi (bitlen q)" using bq0 by (simp add: power_int_def)
      finally show ?thesis .
    qed
    have "(2::rat) powi (?d - 1) = 2 powi (bitlen p - 1) / 2 powi (bitlen q)"
      by (simp add: power_int_diff)
    also have "\<dots> \<le> of_int p / 2 powi (bitlen q)"
      using P by (simp add: divide_right_mono)
    also have "\<dots> \<le> of_int p / of_int q"
      using Q p q by (simp add: frac_le)
    finally have "(2::rat) powi (?d - 1) \<le> a" using a by simp
    with False show ?thesis by (simp add: ilog2_def pq)
  qed
qed

lemma ilog2_less:
  assumes "0 < a" and "a < 2 powi k"
  shows "ilog2 a < k"
proof (rule ccontr)
  assume "\<not> ilog2 a < k"
  then have "k \<le> ilog2 a" by simp
  then have "(2::rat) powi k \<le> 2 powi (ilog2 a)" by (simp add: power_int_increasing)
  with ilog2_le [OF assms(1)] assms(2) show False by linarith
qed

lemma rnd_finite:
  assumes "\<bar>x\<bar> < 2 powi 1000"
  shows "is_finite (rnd x) \<and> \<bar>fval (rnd x)\<bar> \<le> 2 * \<bar>x\<bar>"
proof (cases "x = 0")
  case True
  then show ?thesis by (simp add: rnd_def)
next
  case False
  define a where "a = \<bar>x\<bar>"
  define e where "e = max (ilog2 a - 52) (- 1074)"
  define y where "y = a / 2 powi e"
  define m where "m = rhe y"
  have a: "0 < a" using False by (simp add: a_def)
  have "ilog2 a < 1000" using ilog2_less [OF a] assms by (simp add: a_def)
  then have e: "e < 971" by (simp add: e_def)
  have pe: "(0::rat) < 2 powi e" by simp
  have y: "0 < y" using a pe by (simp add: y_def)
  have m0: "0 \<le> m" using rhe_nonneg [of y] y by (simp add: m_def)
  have r: "rnd x = (if m = 0 then (if 0 < x then Fin 0 else NZero)
                    else Fin (if 0 < x then of_int m * 2 powi e else - (of_int m * 2 powi e)))"
    using False e by (simp add: rnd_def Let_def a_def [symmetric] e_def [symmetric]
        y_def [symmetric] m_def [symmetric])
  show ?thesis
  proof (cases "m = 0")
    case True
    with r show ?thesis by simp
  next
    case False
    with m0 have m1: "1 \<le> m" by simp
    have up: "of_int m \<le> y + 1/2" using rhe_upper [of y] by (simp add: m_def)
    have "(1::rat) \<le> of_int m" using m1 by simp
    with up have "1/2 \<le> y" by linarith
    with up have "of_int m \<le> 2 * y" by linarith
    then have "of_int m * 2 powi e \<le> 2 * y * 2 powi e"
      using pe by (simp add: mult_right_mono)
    also have "\<dots> = 2 * a" by (simp add: y_def)
    finally have le: "of_int m * 2 powi e \<le> 2 * a" .
    have ge: "0 \<le> of_int m * (2::rat) powi e" using m0 by simp
    have le': "of_int m * 2 powi e \<le> 2 * \<bar>x\<bar>" using le by (simp add: a_def)
    show ?thesis
    proof (cases "0 < x")
      case True
      with r False le' ge show ?thesis by simp
    next
      case neg: False
      with r False le' ge show ?thesis by simp
    qed
  qed
qed

lemma fadd_finite:
  assumes "is_finite x" "is_finite y" "\<bar>fval x + fval y\<bar> < 2 powi 1000"
  shows "is_finite (fadd x y) \<and> \<bar>fval (fadd x y)\<bar> \<le> 2 * \<bar>fval x + fval y\<bar>"
  using assms rnd_finite [of "fval x + fval y"]
  by (cases x; cases y) (auto simp: signed_zero_def Let_def)

lemma fsub_finite:
  assumes "is_finite x" "is_finite y" "\<bar>fval x - fval y\<bar> < 2 powi 1000"
  shows "is_finite (fsub x y) \<and> \<bar>fval (fsub x y)\<bar> \<le> 2 * \<bar>fval x - fval y\<bar>"
proof -
  have "is_finite (fneg y)" "fval (fneg y) = - fval y" using assms(2) by (cases y; simp)+
  with fadd_finite [of x "fneg y"] assms show ?thesis by (simp add: fsub_def)
qed

lemma fmul_finite:
  assumes "is_finite x" "is_finite y" "\<bar>fval x * fval y\<bar> < 2 powi 1000"
  shows "is_finite (fmul x y) \<and> \<bar>fval (fmul x y)\<bar> \<le> 2 * \<bar>fval x * fval y\<bar>"
proof -
  have nn: "x \<noteq> NaN" "y \<noteq> NaN" using assms by auto
  show ?thesis
    using assms rnd_finite [of "fval x * fval y"] nn
    by (auto simp: fmul_def signed_zero_def Let_def)
qed

lemma fdiv_finite:
  assumes "is_finite x" "is_finite y" "fval y \<noteq> 0" "\<bar>fval x / fval y\<bar> < 2 powi 1000"
  shows "\<exists>q. fdiv x y = Inr q \<and> is_finite q \<and> \<bar>fval q\<bar> \<le> 2 * \<bar>fval x / fval y\<bar>"
proof -
  have nn: "x \<noteq> NaN" "y \<noteq> NaN" using assms by auto
  show ?thesis
    using assms rnd_finite [of "fval x / fval y"] nn
    by (auto simp: fdiv_def signed_zero_def Let_def)
qed

lemma round1_finite:
  assumes "is_finite x" "\<bar>fval x\<bar> < 2 powi 999"
  shows "is_finite (round1 x) \<and> \<bar>fval (round1 x)\<bar> \<le> 2 * \<bar>fval x\<bar> + 1"
proof (cases x)
  case (Fin q)
  define d where "d = rhe (10 * q)"
  have up: "of_int d \<le> 10 * q + 1/2" and lo: "10 * q - 1/2 \<le> of_int d"
    using rhe_upper [of "10 * q"] rhe_lower [of "10 * q"] by (simp_all add: d_def)
  have b: "\<bar>(of_int d :: rat) / 10\<bar> \<le> \<bar>q\<bar> + 1/20" using up lo by (simp add: abs_if) linarith?
  show ?thesis
  proof (cases "d = 0")
    case True
    then show ?thesis using Fin by (simp add: d_def [symmetric] signed_zero_def)
  next
    case False
    have q: "\<bar>q\<bar> < 2 powi 999" using assms Fin by simp
    have "(2::rat) powi 999 + 2 powi 999 = 2 powi 1000" by simp
    moreover have "(1/20 :: rat) < 2 powi 999" by simp
    ultimately have "\<bar>(of_int d :: rat) / 10\<bar> < 2 powi 1000" using b q by linarith
    from rnd_finite [OF this] b show ?thesis
      using Fin False by (simp add: d_def [symmetric] Let_def) linarith?
  qed
qed (use assms in auto)

lemma float_of_int_finite:
  assumes "\<bar>n\<bar> \<le> 10 ^ 100"
  shows "\<exists>f. float_of_int n = Inr f \<and> is_finite f \<and> \<bar>fval f\<bar> \<le> 2 * 10 ^ 100"
proof -
  have "\<bar>(of_int n :: rat)\<bar> \<le> of_int (10 ^ 100)"
    using assms by (metis of_int_abs of_int_le_iff)
  then have n: "\<bar>(of_int n :: rat)\<bar> \<le> 10 ^ 100" by simp
  have "(10::rat) ^ 100 < 2 powi 1000" by simp
  with n have "\<bar>(of_int n :: rat)\<bar> < 2 powi 1000" by linarith
  from rnd_finite [OF this] n show ?thesis by (simp add: float_of_int_def Let_def)
qed

lemma convert_f_to_c_finite:
  assumes "\<bar>n\<bar> \<le> 10 ^ 100"
  shows "\<exists>c. convert_f_to_c (PInt n) = Inr c \<and> is_finite c"
proof -
  from float_of_int_finite [OF assms] obtain f where
    f: "float_of_int n = Inr f" "is_finite f" "\<bar>fval f\<bar> \<le> 2 * 10 ^ 100" by blast
  have big: "(100 * 10 ^ 100 :: rat) < 2 powi 999" by simp
  have big': "(2::rat) powi 999 < 2 powi 1000" by simp
  have s0: "\<bar>fval f - fval (Fin 32)\<bar> \<le> 3 * 10 ^ 100" using f(3) by (simp add: abs_if split: if_splits)
  then have "\<bar>fval f - fval (Fin 32)\<bar> < 2 powi 1000" using big big' by linarith
  from fsub_finite [OF f(2) _ this] s0
  have s: "is_finite (fsub f (Fin 32))" "\<bar>fval (fsub f (Fin 32))\<bar> \<le> 6 * 10 ^ 100" by simp_all
  have p0: "\<bar>fval (fsub f (Fin 32)) * fval (Fin 5)\<bar> \<le> 30 * 10 ^ 100"
    using s(2) by (simp add: abs_mult)
  then have "\<bar>fval (fsub f (Fin 32)) * fval (Fin 5)\<bar> < 2 powi 1000" using big big' by linarith
  from fmul_finite [OF s(1) _ this] p0
  have p: "is_finite (fmul (fsub f (Fin 32)) (Fin 5))"
    "\<bar>fval (fmul (fsub f (Fin 32)) (Fin 5))\<bar> \<le> 60 * 10 ^ 100" by simp_all
  have q0: "\<bar>fval (fmul (fsub f (Fin 32)) (Fin 5)) / fval (Fin 9)\<bar> \<le> 20 * 10 ^ 100"
    using p(2) by (simp add: abs_if split: if_splits)
  then have "\<bar>fval (fmul (fsub f (Fin 32)) (Fin 5)) / fval (Fin 9)\<bar> < 2 powi 1000"
    using big big' by linarith
  from fdiv_finite [OF p(1) _ _ this] q0 obtain q where
    q: "fdiv (fmul (fsub f (Fin 32)) (Fin 5)) (Fin 9) = Inr q" "is_finite q"
       "\<bar>fval q\<bar> \<le> 40 * 10 ^ 100" by auto
  have "\<bar>fval q\<bar> < 2 powi 999" using q(3) big by linarith
  from round1_finite [OF q(2) this] have "is_finite (round1 q)" by simp
  then show ?thesis using f(1) q(1) by (simp add: convert_f_to_c_def attempt_def)
qed

subsection \<open>The loop of the aggregate report\<close>

lemma traverse_Cons_Inr:
  "traverse f (x # xs) = Inr ys \<longleftrightarrow> (\<exists>y ys'. f x = Inr y \<and> traverse f xs = Inr ys' \<and> ys = y # ys')"
  by (auto simp: attempt_Inr_iff)

lemma traverse_length: "traverse f xs = Inr ys \<Longrightarrow> length ys = length xs"
  by (induction xs arbitrary: ys) (auto simp: attempt_Inr_iff)

lemma traverse_nth:
  "traverse f xs = Inr ys \<Longrightarrow> i < length xs \<Longrightarrow> f (xs ! i) = Inr (ys ! i)"
proof (induction xs arbitrary: ys i)
  case Nil
  then show ?case by simp
next
  case (Cons x xs)
  then show ?case by (cases i) (auto simp: attempt_Inr_iff)
qed

lemma traverse_total:
  "(\<And>x. x \<in> set xs \<Longrightarrow> \<exists>y. f x = Inr y \<and> P y) \<Longrightarrow>
     \<exists>ys. traverse f xs = Inr ys \<and> (\<forall>y\<in>set ys. P y)"
proof (induction xs)
  case Nil
  then show ?case by simp
next
  case (Cons x xs)
  from Cons.prems [of x] obtain y where y: "f x = Inr y" "P y" by auto
  from Cons.IH Cons.prems obtain ys where ys: "traverse f xs = Inr ys" "\<forall>y\<in>set ys. P y"
    by (metis list.set_intros(2))
  show ?case using y ys by (simp add: attempt_def)
qed

lemma summary_loop_folds:
  assumes "traverse min_celsius days = Inr cmin" and "traverse max_celsius days = Inr cmax"
  shows "summary_loop st days = Inr
           \<lparr>min_temp = fst (foldl keep_lower (min_temp st, min_day st) (zip cmin (map fst days))),
            max_temp = fst (foldl keep_higher (max_temp st, max_day st) (zip cmax (map fst days))),
            min_day = snd (foldl keep_lower (min_temp st, min_day st) (zip cmin (map fst days))),
            max_day = snd (foldl keep_higher (max_temp st, max_day st) (zip cmax (map fst days))),
            total_min = foldl fadd (total_min st) cmin,
            total_max = foldl fadd (total_max st) cmax\<rparr>"
  using assms
proof (induction days arbitrary: st cmin cmax)
  case Nil
  then show ?case by simp
next
  case (Cons d days)
  obtain date_str min_f max_f where d: "d = (date_str, min_f, max_f)" by (cases d)
  from Cons.prems(1) obtain c cs where
    c0: "min_celsius d = Inr c" and c: "traverse min_celsius days = Inr cs" "cmin = c # cs"
    unfolding traverse_Cons_Inr by blast
  from Cons.prems(2) obtain h hs where
    h0: "max_celsius d = Inr h" and h: "traverse max_celsius days = Inr hs" "cmax = h # hs"
    unfolding traverse_Cons_Inr by blast
  have c1: "convert_f_to_c min_f = Inr c" using c0 by (simp add: min_celsius_def d)
  have h1: "convert_f_to_c max_f = Inr h" using h0 by (simp add: max_celsius_def d)
  show ?case
    unfolding d c(2) h(2)
    by (simp add: c1 h1 attempt_def Let_def Cons.IH [OF c(1) h(1)] keep_lower_def
        keep_higher_def)
qed

lemma first_min_index_iff:
  "first_min_index cs k \<longleftrightarrow>
     k < length cs \<and> (\<forall>j<length cs. \<not> py_lt (cs ! j) (cs ! k)) \<and> (\<forall>j<k. py_lt (cs ! k) (cs ! j))"
  by (auto simp: first_min_index_def list_all_iff)

lemma first_max_index_iff:
  "first_max_index cs k \<longleftrightarrow>
     k < length cs \<and> (\<forall>j<length cs. \<not> py_lt (cs ! k) (cs ! j)) \<and> (\<forall>j<k. py_lt (cs ! j) (cs ! k))"
  by (auto simp: first_max_index_def list_all_iff)

lemma py_lt_below:
  "is_finite a \<Longrightarrow> is_finite b \<Longrightarrow> is_finite c \<Longrightarrow> py_lt a b \<Longrightarrow> \<not> py_lt c b \<Longrightarrow> py_lt a c"
  by (cases a; cases b; cases c) simp_all

lemma py_lt_above:
  "is_finite a \<Longrightarrow> is_finite b \<Longrightarrow> is_finite c \<Longrightarrow> py_lt b a \<Longrightarrow> \<not> py_lt b c \<Longrightarrow> py_lt c a"
  by (cases a; cases b; cases c) simp_all

lemma py_lt_irrefl: "\<not> py_lt a a"
  by (cases a) simp_all

lemma finite_lt_PInf: "is_finite a \<Longrightarrow> py_lt a PInf"
  by (cases a) simp_all

lemma finite_gt_NInf: "is_finite a \<Longrightarrow> py_lt NInf a"
  by (cases a) simp_all

lemma keep_lower_first:
  assumes "ps \<noteq> []" and "\<forall>p\<in>set ps. is_finite (fst p)"
  shows "\<exists>k. first_min_index (map fst ps) k \<and> foldl keep_lower (PInf, d0) ps = ps ! k"
  using assms
proof (induction ps rule: rev_induct)
  case Nil
  then show ?case by simp
next
  case (snoc p qs)
  have fp: "is_finite (fst p)" using snoc.prems(2) by simp
  show ?case
  proof (cases "qs = []")
    case True
    have "foldl keep_lower (PInf, d0) (qs @ [p]) = p"
      using True finite_lt_PInf [OF fp] by (simp add: keep_lower_def)
    moreover have "first_min_index (map fst (qs @ [p])) 0"
      using True by (simp add: first_min_index_iff py_lt_irrefl)
    ultimately show ?thesis using True by (intro exI [of _ 0]) simp
  next
    case False
    from snoc.IH [OF False] snoc.prems(2) obtain k where
      k: "first_min_index (map fst qs) k" "foldl keep_lower (PInf, d0) qs = qs ! k" by auto
    have kl: "k < length qs" and low: "\<forall>j<length qs. \<not> py_lt (fst (qs ! j)) (fst (qs ! k))"
      and before: "\<forall>j<k. py_lt (fst (qs ! k)) (fst (qs ! j))"
      using k(1) by (auto simp: first_min_index_iff)
    have fin: "\<And>j. j < length qs \<Longrightarrow> is_finite (fst (qs ! j))"
      using snoc.prems(2) by simp
    show ?thesis
    proof (cases "py_lt (fst p) (fst (qs ! k))")
      case True
      have fold: "foldl keep_lower (PInf, d0) (qs @ [p]) = (qs @ [p]) ! length qs"
        using True k(2) by (simp add: keep_lower_def)
      have "\<And>j. j < length qs \<Longrightarrow> py_lt (fst p) (fst (qs ! j))"
        using py_lt_below [OF fp fin [OF kl] fin True] low by blast
      then have "first_min_index (map fst (qs @ [p])) (length qs)"
        by (auto simp: first_min_index_iff nth_append py_lt_irrefl less_Suc_eq dest: py_lt_asym)
      with fold show ?thesis by blast
    next
      case False
      have fold: "foldl keep_lower (PInf, d0) (qs @ [p]) = (qs @ [p]) ! k"
        using False k(2) kl by (simp add: keep_lower_def nth_append)
      have "first_min_index (map fst (qs @ [p])) k"
        using kl low before False by (auto simp: first_min_index_iff nth_append less_Suc_eq)
      with fold show ?thesis by blast
    qed
  qed
qed

lemma keep_higher_first:
  assumes "ps \<noteq> []" and "\<forall>p\<in>set ps. is_finite (fst p)"
  shows "\<exists>k. first_max_index (map fst ps) k \<and> foldl keep_higher (NInf, d0) ps = ps ! k"
  using assms
proof (induction ps rule: rev_induct)
  case Nil
  then show ?case by simp
next
  case (snoc p qs)
  have fp: "is_finite (fst p)" using snoc.prems(2) by simp
  show ?case
  proof (cases "qs = []")
    case True
    have "foldl keep_higher (NInf, d0) (qs @ [p]) = p"
      using True finite_gt_NInf [OF fp] by (simp add: keep_higher_def py_gt_def)
    moreover have "first_max_index (map fst (qs @ [p])) 0"
      using True by (simp add: first_max_index_iff py_lt_irrefl)
    ultimately show ?thesis using True by (intro exI [of _ 0]) simp
  next
    case False
    from snoc.IH [OF False] snoc.prems(2) obtain k where
      k: "first_max_index (map fst qs) k" "foldl keep_higher (NInf, d0) qs = qs ! k" by auto
    have kl: "k < length qs" and high: "\<forall>j<length qs. \<not> py_lt (fst (qs ! k)) (fst (qs ! j))"
      and before: "\<forall>j<k. py_lt (fst (qs ! j)) (fst (qs ! k))"
      using k(1) by (auto simp: first_max_index_iff)
    have fin: "\<And>j. j < length qs \<Longrightarrow> is_finite (fst (qs ! j))"
      using snoc.prems(2) by simp
    show ?thesis
    proof (cases "py_lt (fst (qs ! k)) (fst p)")
      case True
      have fold: "foldl keep_higher (NInf, d0) (qs @ [p]) = (qs @ [p]) ! length qs"
        using True k(2) by (simp add: keep_higher_def py_gt_def)
      have "\<And>j. j < length qs \<Longrightarrow> py_lt (fst (qs ! j)) (fst p)"
        using py_lt_above [OF fp fin [OF kl] fin True] high by blast
      then have "first_max_index (map fst (qs @ [p])) (length qs)"
        by (auto simp: first_max_index_iff nth_append py_lt_irrefl less_Suc_eq dest: py_lt_asym)
      with fold show ?thesis by blast
    next
      case False
      have fold: "foldl keep_higher (NInf, d0) (qs @ [p]) = (qs @ [p]) ! k"
        using False k(2) kl by (simp add: keep_higher_def py_gt_def nth_append)
      have "first_max_index (map fst (qs @ [p])) k"
        using kl high before False by (auto simp: first_max_index_iff nth_append less_Suc_eq)
      with fold show ?thesis by blast
    qed
  qed
qed

lemma fdiv_defined: "is_finite y \<Longrightarrow> fval y \<noteq> 0 \<Longrightarrow> \<exists>q. fdiv x y = Inr q"
  by (simp add: fdiv_def Let_def)

lemma day_record_min:
  assumes "day_record d"
  shows "\<exists>c. min_celsius d = Inr c \<and> is_finite c"
proof -
  obtain date_str min_f max_f where d: "d = (date_str, min_f, max_f)" by (cases d)
  from assms obtain n where "min_f = PInt n" "\<bar>n\<bar> \<le> 10 ^ 100"
    by (auto simp: day_record_def d is_temperature_def split: pyval.splits)
  with convert_f_to_c_finite [of n] show ?thesis by (simp add: min_celsius_def d)
qed

lemma day_record_max:
  assumes "day_record d"
  shows "\<exists>c. max_celsius d = Inr c \<and> is_finite c"
proof -
  obtain date_str min_f max_f where d: "d = (date_str, min_f, max_f)" by (cases d)
  from assms obtain n where "max_f = PInt n" "\<bar>n\<bar> \<le> 10 ^ 100"
    by (auto simp: day_record_def d is_temperature_def split: pyval.splits)
  with convert_f_to_c_finite [of n] show ?thesis by (simp add: max_celsius_def d)
qed

lemma day_record_date:
  assumes "day_record d"
  shows "\<exists>dt. fromisoformat (fst d) = Inr dt"
  using assms by (cases d; cases "fromisoformat (fst d)") (auto simp: day_record_def)

lemma generate_summary_report:
  assumes ne: "days \<noteq> []" and rec: "list_all day_record days"
  shows "\<exists>cmin cmax k1 k2 d1 d2 q1 q2.
     traverse min_celsius days = Inr cmin \<and> traverse max_celsius days = Inr cmax
     \<and> first_min_index cmin k1 \<and> first_max_index cmax k2
     \<and> fromisoformat (fst (days ! k1)) = Inr d1 \<and> fromisoformat (fst (days ! k2)) = Inr d2
     \<and> fdiv (py_sum cmin) (float_len days) = Inr q1
     \<and> fdiv (py_sum cmax) (float_len days) = Inr q2
     \<and> generate_summary days = Inr (summary_report (length days)
           (py_repr (cmin ! k1)) (strftime_A_d_B_Y d1)
           (py_repr (cmax ! k2)) (strftime_A_d_B_Y d2)
           (py_repr (round1 q1)) (py_repr (round1 q2)))"
proof -
  have recs: "\<And>d. d \<in> set days \<Longrightarrow> day_record d" using rec by (simp add: list_all_iff)
  from traverse_total [of days min_celsius is_finite] recs day_record_min
  obtain cmin where cmin: "traverse min_celsius days = Inr cmin" "\<forall>c\<in>set cmin. is_finite c"
    by blast
  from traverse_total [of days max_celsius is_finite] recs day_record_max
  obtain cmax where cmax: "traverse max_celsius days = Inr cmax" "\<forall>c\<in>set cmax. is_finite c"
    by blast
  have len: "length cmin = length days" "length cmax = length days"
    using traverse_length cmin(1) cmax(1) by blast+
  let ?pl = "zip cmin (map fst days)" and ?ph = "zip cmax (map fst days)"
  have pl: "?pl \<noteq> []" "\<forall>p\<in>set ?pl. is_finite (fst p)" "map fst ?pl = cmin"
    using ne len cmin(2) by (auto dest: set_zip_leftD)
  have ph: "?ph \<noteq> []" "\<forall>p\<in>set ?ph. is_finite (fst p)" "map fst ?ph = cmax"
    using ne len cmax(2) by (auto dest: set_zip_leftD)
  from keep_lower_first [OF pl(1,2), of "[]"] pl(3) obtain k1 where
    k1: "first_min_index cmin k1" "foldl keep_lower (PInf, []) ?pl = ?pl ! k1" by auto
  from keep_higher_first [OF ph(1,2), of "[]"] ph(3) obtain k2 where
    k2: "first_max_index cmax k2" "foldl keep_higher (NInf, []) ?ph = ?ph ! k2" by auto
  have k1l: "k1 < length days" and k2l: "k2 < length days"
    using k1(1) k2(1) len by (simp_all add: first_min_index_def first_max_index_def)
  have pk1: "?pl ! k1 = (cmin ! k1, fst (days ! k1))" and pk2: "?ph ! k2 = (cmax ! k2, fst (days ! k2))"
    using k1l k2l len by simp_all
  from day_record_date [OF recs] k1l k2l obtain d1 d2 where
    d: "fromisoformat (fst (days ! k1)) = Inr d1" "fromisoformat (fst (days ! k2)) = Inr d2"
    by (metis nth_mem)
  have fl: "is_finite (float_len days)" "fval (float_len days) \<noteq> 0"
    using ne by (simp_all add: float_len_def)
  from fdiv_defined [OF fl] obtain q1 q2 where
    q: "fdiv (py_sum cmin) (float_len days) = Inr q1" "fdiv (py_sum cmax) (float_len days) = Inr q2"
    by blast
  have loop: "summary_loop summary_init days = Inr
           \<lparr>min_temp = cmin ! k1, max_temp = cmax ! k2,
            min_day = fst (days ! k1), max_day = fst (days ! k2),
            total_min = py_sum cmin, total_max = py_sum cmax\<rparr>"
    using summary_loop_folds [OF cmin(1) cmax(1), of summary_init]
    by (simp add: summary_init_def k1(2) k2(2) pk1 pk2 py_sum_def)
  have "generate_summary days = Inr (summary_report (length days)
           (py_repr (cmin ! k1)) (strftime_A_d_B_Y d1)
           (py_repr (cmax ! k2)) (strftime_A_d_B_Y d2)
           (py_repr (round1 q1)) (py_repr (round1 q2)))"
    using ne by (simp add: generate_summary_def loop attempt_def q d Let_def summary_report_def
        format_temperature_def)
  with cmin(1) cmax(1) k1(1) k2(1) d q show ?thesis by blast
qed

subsection \<open>\<open>min\<close>, \<open>max\<close> and the running extrema\<close>

lemma first_min_index_unique:
  "first_min_index cs k \<Longrightarrow> first_min_index cs k' \<Longrightarrow> k = k'"
  unfolding first_min_index_iff by (metis linorder_neqE_nat)

lemma first_max_index_unique:
  "first_max_index cs k \<Longrightarrow> first_max_index cs k' \<Longrightarrow> k = k'"
  unfolding first_max_index_iff by (metis linorder_neqE_nat)

lemma keep_lower_fst:
  "length ds = length cs \<Longrightarrow>
     fst (foldl keep_lower (m, d) (zip cs ds)) = foldl (\<lambda>m y. if py_lt y m then y else m) m cs"
proof (induction cs arbitrary: m d ds)
  case Nil
  then show ?case by simp
next
  case (Cons c cs)
  then obtain e es where "ds = e # es" "length es = length cs" by (cases ds) auto
  with Cons.IH show ?case by (simp add: keep_lower_def)
qed

lemma keep_higher_fst:
  "length ds = length cs \<Longrightarrow>
     fst (foldl keep_higher (m, d) (zip cs ds)) = foldl (\<lambda>m y. if py_gt y m then y else m) m cs"
proof (induction cs arbitrary: m d ds)
  case Nil
  then show ?case by simp
next
  case (Cons c cs)
  then obtain e es where "ds = e # es" "length es = length cs" by (cases ds) auto
  with Cons.IH show ?case by (simp add: keep_higher_def)
qed

lemma py_min_first:
  assumes fin: "\<forall>c\<in>set (x # xs). is_finite c" and k: "first_min_index (x # xs) k"
  shows "py_min x xs = (x # xs) ! k"
proof -
  let ?cs = "x # xs"
  let ?ps = "zip ?cs (replicate (length ?cs) ([]::string))"
  have ps: "?ps \<noteq> []" "\<forall>p\<in>set ?ps. is_finite (fst p)" "map fst ?ps = ?cs"
    using fin by (auto dest: set_zip_leftD)
  from keep_lower_first [OF ps(1,2), of "[]"] obtain k' where
    k': "first_min_index (map fst ?ps) k'" "foldl keep_lower (PInf, []) ?ps = ?ps ! k'" by blast
  have kk: "k' = k" using k'(1) k first_min_index_unique unfolding ps(3) by blast
  have kl: "k < length ?cs" using k by (simp add: first_min_index_def)
  have "fst (foldl keep_lower (PInf, []) ?ps) = foldl (\<lambda>m y. if py_lt y m then y else m) PInf ?cs"
    by (rule keep_lower_fst) simp
  also have "\<dots> = py_min x xs"
    using fin finite_lt_PInf [of x] by (simp add: py_min_def)
  finally have "py_min x xs = fst (?ps ! k)" using k'(2) kk by simp
  also have "\<dots> = ?cs ! k" using kl by (simp del: zip_Cons_Cons replicate_Suc)
  finally show ?thesis .
qed

lemma py_max_first:
  assumes fin: "\<forall>c\<in>set (x # xs). is_finite c" and k: "first_max_index (x # xs) k"
  shows "py_max x xs = (x # xs) ! k"
proof -
  let ?cs = "x # xs"
  let ?ps = "zip ?cs (replicate (length ?cs) ([]::string))"
  have ps: "?ps \<noteq> []" "\<forall>p\<in>set ?ps. is_finite (fst p)" "map fst ?ps = ?cs"
    using fin by (auto dest: set_zip_leftD)
  from keep_higher_first [OF ps(1,2), of "[]"] obtain k' where
    k': "first_max_index (map fst ?ps) k'" "foldl keep_higher (NInf, []) ?ps = ?ps ! k'" by blast
  have kk: "k' = k" using k'(1) k first_max_index_unique unfolding ps(3) by blast
  have kl: "k < length ?cs" using k by (simp add: first_max_index_def)
  have "fst (foldl keep_higher (NInf, []) ?ps) = foldl (\<lambda>m y. if py_gt y m then y else m) NInf ?cs"
    by (rule keep_higher_fst) simp
  also have "\<dots> = py_max x xs"
    using fin finite_gt_NInf [of x] by (simp add: py_max_def py_gt_def)
  finally have "py_max x xs = fst (?ps ! k)" using k'(2) kk by simp
  also have "\<dots> = ?cs ! k" using kl by (simp del: zip_Cons_Cons replicate_Suc)
  finally show ?thesis .
qed

lemma traverse_PFloat: "traverse py_float (map PFloat cs) = Inr cs"
  by (induction cs) (simp_all add: attempt_def)

lemma py_eq_not_lt: "py_eq a b \<Longrightarrow> \<not> py_lt b a"
  by (cases a; cases b) simp_all

lemma find_min_value:
  "traverse py_float vs = Inr (x # xs) \<Longrightarrow> find_min vs = Inr (Some (m, i)) \<Longrightarrow> m = py_min x xs"
  by (auto simp: find_min_def attempt_def Let_def split: sum.splits)

lemma find_max_value:
  "traverse py_float vs = Inr (x # xs) \<Longrightarrow> find_max vs = Inr (Some (m, i)) \<Longrightarrow> m = py_max x xs"
  by (auto simp: find_max_def attempt_def Let_def split: sum.splits)

lemma convert_f_to_c_rounds:
  assumes "convert_f_to_c v = Inr c"
  shows "\<exists>f q. py_float v = Inr f \<and> fdiv (fmul (fsub f (Fin 32)) (Fin 5)) (Fin 9) = Inr q
           \<and> c = round1 q"
  using assms by (auto simp: convert_f_to_c_def attempt_Inr_iff)

subsection \<open>Evaluated examples\<close>

lemma convert_32: "convert_f_to_c (PInt 32) = Inr (Fin 0)" by code_simp
lemma convert_68: "convert_f_to_c (PInt 68) = Inr (Fin 20)" by code_simp
lemma date_0706: "fromisoformat ''2021-07-06'' = Inr \<lparr>year = 2021, month = 7, day = 6\<rparr>"
  by code_simp
lemma date_0707: "fromisoformat ''2021-07-07'' = Inr \<lparr>year = 2021, month = 7, day = 7\<rparr>"
  by code_simp
lemma human_0706: "strftime_A_d_B_Y \<lparr>year = 2021, month = 7, day = 6\<rparr> = ''Tuesday 06 July 2021''"
  by code_simp
lemma repr_0: "py_repr (Fin 0) = ''0.0''" by code_simp
lemma repr_20: "py_repr (Fin 20) = ''20.0''" by code_simp
lemma round1_0: "round1 (Fin 0) = Fin 0" by code_simp
lemma round1_20: "round1 (Fin 20) = Fin 20" by code_simp
lemma avg_0: "fdiv (fadd (fadd (Fin 0) (Fin 0)) (Fin 0)) (Fin 2) = Inr (Fin 0)" by code_simp
lemma avg_20: "fdiv (fadd (fadd (Fin 0) (Fin 20)) (Fin 20)) (Fin 2) = Inr (Fin 20)" by code_simp

lemma str_nat_2: "str_nat 2 = ''2''" "str_nat (Suc (Suc 0)) = ''2''" by code_simp+

lemma summary_tie_example:
  "generate_summary [(''2021-07-06'', PInt 32, PInt 68), (''2021-07-07'', PInt 32, PInt 68)]
     = Inr (summary_report 2 ''0.0'' ''Tuesday 06 July 2021'' ''20.0'' ''Tuesday 06 July 2021''
              ''0.0'' ''20.0'')"
  by (simp add: generate_summary_def summary_init_def convert_32 convert_68 attempt_def
      Let_def py_gt_def float_len_def avg_0 avg_20 round1_0 round1_20 date_0706 human_0706
      format_temperature_def repr_0 repr_20 summary_report_def str_nat_2
      del: round1.simps py_repr.simps fadd.simps)

subsection \<open>The aggregate report\<close>

lemma example_days_ok:
  "list_all day_record [(''2021-07-06'', PInt 32, PInt 68), (''2021-07-07'', PInt 32, PInt 68)]"
  by (simp add: day_record_def is_temperature_def date_0706 date_0707)

lemma find_min_tie_example: "find_min [PFloat (Fin 0), PFloat (Fin 0)] = Inr (Some (Fin 0, 1))"
  by (simp add: find_min_def attempt_def py_min_def)

text \<open>
  Claim C1. For a non-empty series, the date that \<open>generate_summary\<close> reports for the
  lowest temperature is the date of the first record whose converted minimum is the least
  one, and the date for the highest temperature that of the first record whose converted
  maximum is the greatest one: the running extrema change only under strict comparison. On
  a tie the earliest day is kept, where \<open>find_min\<close> returns the last index: for two days with
  equal temperatures the report names the first day and \<open>find_min\<close> gives index 1.
\<close>

theorem summary_dates_first_extremum:
  assumes "days \<noteq> []" and "list_all day_record days"
  shows "(\<exists>cmin cmax k1 k2 d1 d2 al ah.
            traverse min_celsius days = Inr cmin \<and> traverse max_celsius days = Inr cmax
            \<and> first_min_index cmin k1 \<and> first_max_index cmax k2
            \<and> fromisoformat (fst (days ! k1)) = Inr d1
            \<and> fromisoformat (fst (days ! k2)) = Inr d2
            \<and> generate_summary days = Inr (summary_report (length days)
                  (py_repr (cmin ! k1)) (strftime_A_d_B_Y d1)
                  (py_repr (cmax ! k2)) (strftime_A_d_B_Y d2) al ah))
       \<and> generate_summary
             [(''2021-07-06'', PInt 32, PInt 68), (''2021-07-07'', PInt 32, PInt 68)]
           = Inr (summary_report 2 ''0.0'' ''Tuesday 06 July 2021''
                    ''20.0'' ''Tuesday 06 July 2021'' ''0.0'' ''20.0'')
       \<and> find_min [PFloat (Fin 0), PFloat (Fin 0)] = Inr (Some (Fin 0, 1))"
proof -
  from generate_summary_report [OF assms]
  have "\<exists>cmin cmax k1 k2 d1 d2 al ah.
            traverse min_celsius days = Inr cmin \<and> traverse max_celsius days = Inr cmax
            \<and> first_min_index cmin k1 \<and> first_max_index cmax k2
            \<and> fromisoformat (fst (days ! k1)) = Inr d1
            \<and> fromisoformat (fst (days ! k2)) = Inr d2
            \<and> generate_summary days = Inr (summary_report (length days)
                  (py_repr (cmin ! k1)) (strftime_A_d_B_Y d1)
                  (py_repr (cmax ! k2)) (strftime_A_d_B_Y d2) al ah)"
    by blast
  with summary_tie_example find_min_tie_example show ?thesis by blast
qed

theorem summary_dates_first_extremum_witness:
  "\<exists>cmin k1 d1 lo hi hd al ah.
     traverse min_celsius [(''2021-07-06'', PInt 32, PInt 68), (''2021-07-07'', PInt 32, PInt 68)]
       = Inr cmin
     \<and> first_min_index cmin k1
     \<and> fromisoformat (fst ([(''2021-07-06'', PInt 32, PInt 68), (''2021-07-07'', PInt 32, PInt 68)] ! k1))
         = Inr d1
     \<and> generate_summary [(''2021-07-06'', PInt 32, PInt 68), (''2021-07-07'', PInt 32, PInt 68)]
         = Inr (summary_report 2 lo (strftime_A_d_B_Y d1) hi hd al ah)"
proof -
  have ne: "[(''2021-07-06'', PInt 32, PInt 68), (''2021-07-07'', PInt 32, PInt 68)] \<noteq> []"
    by simp
  from summary_dates_first_extremum [OF ne example_days_ok] show ?thesis
    by (metis length_Cons list.size(3) numeral_2_eq_2)
qed

lemma raw_33: "fdiv (fmul (fsub (Fin 33) (Fin 32)) (Fin 5)) (Fin 9) = Inr (Fin (2501999792983609 / 4503599627370496))" by code_simp
lemma raw_34: "fdiv (fmul (fsub (Fin 34) (Fin 32)) (Fin 5)) (Fin 9) = Inr (Fin (2501999792983609 / 2251799813685248))" by code_simp
lemma convert_33: "convert_f_to_c (PInt 33) = Inr (Fin (5404319552844595 / 9007199254740992))" by code_simp
lemma convert_34: "convert_f_to_c (PInt 34) = Inr (Fin (2476979795053773 / 2251799813685248))" by code_simp
lemma avg_33_34: "fdiv (fadd (fadd (Fin 0) (Fin (5404319552844595 / 9007199254740992))) (Fin (2476979795053773 / 2251799813685248))) (Fin 2) = Inr (Fin (1914029841632461 / 2251799813685248))" by code_simp
lemma round1_avg_33_34: "round1 (Fin (1914029841632461 / 2251799813685248)) = Fin (8106479329266893 / 9007199254740992)" by code_simp
lemma repr_06: "py_repr (Fin (5404319552844595 / 9007199254740992)) = ''0.6''" by code_simp
lemma repr_09: "py_repr (Fin (8106479329266893 / 9007199254740992)) = ''0.9''" by code_simp
lemma raw_avg_33_34: "fdiv (py_sum [Fin (2501999792983609 / 4503599627370496), Fin (2501999792983609 / 2251799813685248)]) (Fin 2) = Inr (Fin (7505999378950827 / 9007199254740992))" by code_simp
lemma round1_raw_avg: "py_repr (round1 (Fin (7505999378950827 / 9007199254740992))) = ''0.8''" by code_simp

lemma example_b_ok:
  "list_all day_record [(''2021-07-06'', PInt 33, PInt 68), (''2021-07-07'', PInt 34, PInt 68)]"
  by (simp add: day_record_def is_temperature_def date_0706 date_0707)

lemma summary_rounding_example:
  "generate_summary [(''2021-07-06'', PInt 33, PInt 68), (''2021-07-07'', PInt 34, PInt 68)]
     = Inr (summary_report 2 ''0.6'' ''Tuesday 06 July 2021'' ''20.0'' ''Tuesday 06 July 2021''
              ''0.9'' ''20.0'')"
  by (simp add: generate_summary_def summary_init_def convert_33 convert_34 convert_68
      attempt_def Let_def py_gt_def float_len_def avg_33_34 avg_20 round1_avg_33_34 round1_20
      date_0706 human_0706 format_temperature_def repr_06 repr_09 repr_20 summary_report_def
      str_nat_2 del: round1.simps py_repr.simps fadd.simps)

lemma rounding_after_example:
  "\<exists>u1 u2 q. fdiv (fmul (fsub (Fin 33) (Fin 32)) (Fin 5)) (Fin 9) = Inr u1
     \<and> fdiv (fmul (fsub (Fin 34) (Fin 32)) (Fin 5)) (Fin 9) = Inr u2
     \<and> fdiv (py_sum [u1, u2]) (Fin 2) = Inr q \<and> py_repr (round1 q) = ''0.8''"
  using raw_33 raw_34 raw_avg_33_34 round1_raw_avg by blast

lemma traverse_rounded:
  assumes "traverse min_celsius days = Inr cmin" and "j < length days"
  shows "\<exists>f q. py_float (fst (snd (days ! j))) = Inr f
           \<and> fdiv (fmul (fsub f (Fin 32)) (Fin 5)) (Fin 9) = Inr q \<and> cmin ! j = round1 q"
  using traverse_nth [OF assms] convert_f_to_c_rounds by (simp add: min_celsius_def)

lemma traverse_rounded_max:
  assumes "traverse max_celsius days = Inr cmax" and "j < length days"
  shows "\<exists>f q. py_float (snd (snd (days ! j))) = Inr f
           \<and> fdiv (fmul (fsub f (Fin 32)) (Fin 5)) (Fin 9) = Inr q \<and> cmax ! j = round1 q"
  using traverse_nth [OF assms] convert_f_to_c_rounds by (simp add: max_celsius_def)

text \<open>
  Claim C4. For a non-empty series, the average low and the average high that
  \<open>generate_summary\<close> reports are \<open>round(S / N, 1)\<close>, where \<open>N\<close> is the number of records and
  \<open>S\<close> the sum of the per-day conversions, each of which is already rounded to one decimal:
  rounding happens per day before the summation. For the minima 33 and 34 the report says
  0.9, where rounding once after the summation would give 0.8.
\<close>

theorem summary_averages_of_rounded_days:
  assumes "days \<noteq> []" and "list_all day_record days"
  shows "(\<exists>cmin cmax q1 q2 lo d1 hi d2.
            traverse min_celsius days = Inr cmin \<and> traverse max_celsius days = Inr cmax
            \<and> (\<forall>j<length days. \<exists>f q. py_float (fst (snd (days ! j))) = Inr f
                   \<and> fdiv (fmul (fsub f (Fin 32)) (Fin 5)) (Fin 9) = Inr q \<and> cmin ! j = round1 q)
            \<and> (\<forall>j<length days. \<exists>f q. py_float (snd (snd (days ! j))) = Inr f
                   \<and> fdiv (fmul (fsub f (Fin 32)) (Fin 5)) (Fin 9) = Inr q \<and> cmax ! j = round1 q)
            \<and> fdiv (py_sum cmin) (float_len days) = Inr q1
            \<and> fdiv (py_sum cmax) (float_len days) = Inr q2
            \<and> generate_summary days = Inr (summary_report (length days) lo d1 hi d2
                  (py_repr (round1 q1)) (py_repr (round1 q2))))
       \<and> generate_summary
             [(''2021-07-06'', PInt 33, PInt 68), (''2021-07-07'', PInt 34, PInt 68)]
           = Inr (summary_report 2 ''0.6'' ''Tuesday 06 July 2021''
                    ''20.0'' ''Tuesday 06 July 2021'' ''0.9'' ''20.0'')
       \<and> (\<exists>u1 u2 q. fdiv (fmul (fsub (Fin 33) (Fin 32)) (Fin 5)) (Fin 9) = Inr u1
             \<and> fdiv (fmul (fsub (Fin 34) (Fin 32)) (Fin 5)) (Fin 9) = Inr u2
             \<and> fdiv (py_sum [u1, u2]) (Fin 2) = Inr q \<and> py_repr (round1 q) = ''0.8'')"
proof -
  from generate_summary_report [OF assms] obtain cmin cmax k1 k2 d1 d2 q1 q2 where
    r: "traverse min_celsius days = Inr cmin" "traverse max_celsius days = Inr cmax"
       "fdiv (py_sum cmin) (float_len days) = Inr q1"
       "fdiv (py_sum cmax) (float_len days) = Inr q2"
       "generate_summary days = Inr (summary_report (length days)
           (py_repr (cmin ! k1)) (strftime_A_d_B_Y d1)
           (py_repr (cmax ! k2)) (strftime_A_d_B_Y d2)
           (py_repr (round1 q1)) (py_repr (round1 q2)))"
    by blast
  have a: "\<forall>j<length days. \<exists>f q. py_float (fst (snd (days ! j))) = Inr f
             \<and> fdiv (fmul (fsub f (Fin 32)) (Fin 5)) (Fin 9) = Inr q \<and> cmin ! j = round1 q"
    using traverse_rounded [OF r(1)] by blast
  have b: "\<forall>j<length days. \<exists>f q. py_float (snd (snd (days ! j))) = Inr f
             \<and> fdiv (fmul (fsub f (Fin 32)) (Fin 5)) (Fin 9) = Inr q \<and> cmax ! j = round1 q"
    using traverse_rounded_max [OF r(2)] by blast
  from r a b have "\<exists>cmin cmax q1 q2 lo d1 hi d2.
            traverse min_celsius days = Inr cmin \<and> traverse max_celsius days = Inr cmax
            \<and> (\<forall>j<length days. \<exists>f q. py_float (fst (snd (days ! j))) = Inr f
                   \<and> fdiv (fmul (fsub f (Fin 32)) (Fin 5)) (Fin 9) = Inr q \<and> cmin ! j = round1 q)
            \<and> (\<forall>j<length days. \<exists>f q. py_float (snd (snd (days ! j))) = Inr f
                   \<and> fdiv (fmul (fsub f (Fin 32)) (Fin 5)) (Fin 9) = Inr q \<and> cmax ! j = round1 q)
            \<and> fdiv (py_sum cmin) (float_len days) = Inr q1
            \<and> fdiv (py_sum cmax) (float_len days) = Inr q2
            \<and> generate_summary days = Inr (summary_report (length days) lo d1 hi d2
                  (py_repr (round1 q1)) (py_repr (round1 q2)))"
    by blast
  with summary_rounding_example rounding_after_example show ?thesis by blast
qed

theorem summary_averages_of_rounded_days_witness:
  "\<exists>cmin q1 lo d1 hi d2 ah.
     traverse min_celsius [(''2021-07-06'', PInt 33, PInt 68), (''2021-07-07'', PInt 34, PInt 68)]
       = Inr cmin
     \<and> fdiv (py_sum cmin)
          (float_len [(''2021-07-06'', PInt 33, PInt 68), (''2021-07-07'', PInt 34, PInt 68)])
         = Inr q1
     \<and> generate_summary [(''2021-07-06'', PInt 33, PInt 68), (''2021-07-07'', PInt 34, PInt 68)]
         = Inr (summary_report 2 lo d1 hi d2 (py_repr (round1 q1)) ah)"
proof -
  have ne: "[(''2021-07-06'', PInt 33, PInt 68), (''2021-07-07'', PInt 34, PInt 68)] \<noteq> []"
    by simp
  from summary_averages_of_rounded_days [OF ne example_b_ok] show ?thesis
    by (metis length_Cons list.size(3) numeral_2_eq_2)
qed

subsection \<open>Empty input\<close>

text \<open>
  Claim C6. For the empty list, \<open>calculate_mean\<close>, \<open>generate_summary\<close> and
  \<open>generate_daily_summary\<close> all return the same fixed string
  \<open>No daily weather data available.\<close> and raise no error.
\<close>

theorem empty_input_sentinel:
  "calculate_mean [] = Inr (RStr ''No daily weather data available.'')
   \<and> generate_summary [] = Inr ''No daily weather data available.''
   \<and> generate_daily_summary [] = Inr ''No daily weather data available.''"
  by (simp add: calculate_mean_def generate_summary_def generate_daily_summary_def no_data_def)

end
